theory Spec2Isabelle
  imports Complex_Main "HOL-Library.Word" "HOL-Library.AList"
begin

unbundle bit_operations_syntax

section \<open>Vector encoding codec (package redisvector)\<close>

text \<open>
  A Go \<open>float32\<close> is represented by its IEEE-754 bit pattern, a 32-bit word, and a
  \<open>float64\<close> by a 64-bit word: \<open>math.Float32bits\<close> and \<open>math.Float64bits\<close> return exactly
  that pattern, so both are the identity here. A Go \<open>byte\<close> is an 8-bit word; a Go
  \<open>string\<close> is a sequence of bytes, modelled as an Isabelle \<open>string\<close> (a list of 8-bit
  characters).
\<close>

type_synonym byte = "8 word"
type_synonym float32 = "32 word"
type_synonym float64 = "64 word"

definition Float32bits :: "float32 \<Rightarrow> 32 word" where
  "Float32bits e = e"

definition Float64bits :: "float64 \<Rightarrow> 64 word" where
  "Float64bits e = e"

text \<open>
  \<open>binary.LittleEndian.PutUint32(b[off:off+4], v)\<close> stores \<open>byte(v)\<close>, \<open>byte(v >> 8)\<close>,
  \<open>byte(v >> 16)\<close>, \<open>byte(v >> 24)\<close> at \<open>off\<close>, \<open>off + 1\<close>, \<open>off + 2\<close>, \<open>off + 3\<close>.
\<close>

definition PutUint32 :: "byte list \<Rightarrow> nat \<Rightarrow> 32 word \<Rightarrow> byte list" where
  "PutUint32 b off v =
     b[off := ucast v,
       off + 1 := ucast (drop_bit 8 v),
       off + 2 := ucast (drop_bit 16 v),
       off + 3 := ucast (drop_bit 24 v)]"

definition PutUint64 :: "byte list \<Rightarrow> nat \<Rightarrow> 64 word \<Rightarrow> byte list" where
  "PutUint64 b off v =
     b[off := ucast v,
       off + 1 := ucast (drop_bit 8 v),
       off + 2 := ucast (drop_bit 16 v),
       off + 3 := ucast (drop_bit 24 v),
       off + 4 := ucast (drop_bit 32 v),
       off + 5 := ucast (drop_bit 40 v),
       off + 6 := ucast (drop_bit 48 v),
       off + 7 := ucast (drop_bit 56 v)]"

text \<open>\<open>unsafe.String(unsafe.SliceData(b), len(b))\<close>: the bytes of \<open>b\<close> read as a string.\<close>

definition unsafe_String :: "byte list \<Rightarrow> string" where
  "unsafe_String b = map (\<lambda>x. char_of (unat x)) b"

text \<open>
  The loop \<open>for i, e := range v\<close> of \<open>float32VectorToString\<close>: the first argument is the
  index \<open>i\<close> of the next element, the second the elements still to visit, the third
  the buffer \<open>b\<close>. The buffer has \<open>len(v) * 4\<close> bytes, so every slice \<open>b[i:i+4]\<close> of the
  loop is in range (\<open>float32_range_splice\<close> below needs and has this bound) and the
  slice expression cannot panic.
\<close>

fun float32_range :: "nat \<Rightarrow> float32 list \<Rightarrow> byte list \<Rightarrow> byte list" where
  "float32_range i [] b = b"
| "float32_range i (e # es) b = float32_range (i + 1) es (PutUint32 b (i * 4) (Float32bits e))"

definition float32VectorToString :: "float32 list \<Rightarrow> string" where
  "float32VectorToString v =
     unsafe_String (float32_range 0 v (replicate (length v * 4) 0))"

fun float64_range :: "nat \<Rightarrow> float64 list \<Rightarrow> byte list \<Rightarrow> byte list" where
  "float64_range i [] b = b"
| "float64_range i (e # es) b = float64_range (i + 1) es (PutUint64 b (i * 8) (Float64bits e))"

definition float64VectorToString :: "float64 list \<Rightarrow> string" where
  "float64VectorToString v =
     unsafe_String (float64_range 0 v (replicate (length v * 8) 0))"


text \<open>The four, respectively eight, bytes that \<open>PutUint32\<close> and \<open>PutUint64\<close> store, in order.\<close>

definition le32 :: "32 word \<Rightarrow> byte list" where
  "le32 v = [ucast v, ucast (drop_bit 8 v), ucast (drop_bit 16 v), ucast (drop_bit 24 v)]"

definition le64 :: "64 word \<Rightarrow> byte list" where
  "le64 v = [ucast v, ucast (drop_bit 8 v), ucast (drop_bit 16 v), ucast (drop_bit 24 v),
             ucast (drop_bit 32 v), ucast (drop_bit 40 v), ucast (drop_bit 48 v),
             ucast (drop_bit 56 v)]"

section \<open>Errors\<close>

text \<open>
  A Go \<open>error\<close> value is \<open>error option\<close>, \<open>None\<close> being \<open>nil\<close>. \<open>errors.New\<close> and
  \<open>fmt.Errorf\<close> (used without verbs in these sources) build an error from its message;
  \<open>errors.Join\<close> discards the nil values and returns nil when none is left, and otherwise
  one error wrapping the remaining ones in order.
\<close>

datatype error = Err string | joinError "error list"

definition errors_New :: "string \<Rightarrow> error option" where
  "errors_New msg = Some (Err msg)"

definition fmt_Errorf :: "string \<Rightarrow> error option" where
  "fmt_Errorf msg = Some (Err msg)"

fun non_nil :: "error option list \<Rightarrow> error list" where
  "non_nil [] = []"
| "non_nil (None # errs) = non_nil errs"
| "non_nil (Some e # errs) = e # non_nil errs"

definition errors_Join :: "error option list \<Rightarrow> error option" where
  "errors_Join errs = (if length (non_nil errs) = 0 then None else Some (joinError (non_nil errs)))"

text \<open>A call either returns a value or panics with a message.\<close>

datatype 'a outcome = Panics string | Returns 'a

section \<open>Documents and formatting\<close>

text \<open>
  A document is a Go \<open>map[string]any\<close>. The dynamic types of its values that the code
  distinguishes or that the claims mention are the variants of \<open>any\<close>; a Go \<open>int\<close> is
  an Isabelle \<open>int\<close> (only its decimal rendering is used). A map is an association
  list with one entry per key: Go leaves the order of \<open>range\<close> over a map unspecified,
  and the order of the list is the order in which this run visits the entries. A key that
  is assigned while absent is added at the end. Values of other dynamic types (nested
  maps, nil values) are outside the model.
\<close>

datatype any =
    AString string
  | AInt int
  | ABool bool
  | AFloat32 float32
  | AFloat64 float64
  | AFloat32s "float32 list"
  | AFloat64s "float64 list"

type_synonym doc = "(string \<times> any) list"

text \<open>
  What the sources take from the Go libraries and from the operating system, as
  parameters: the text of a floating-point number under the verb \<open>%v\<close>
  (\<open>FormatFloat32\<close>, \<open>FormatFloat64\<close>); \<open>strconv.ParseFloat(s, 32)\<close> together with the
  conversion \<open>float32(score)\<close> of its first result, which with bit size 32 does not change
  the value (\<open>ParseFloat32\<close>); and the text of the \<open>n\<close>-th identifier that
  \<open>uuid.New().String()\<close> produces in this run (\<open>uuid_String\<close>).
\<close>

record golib =
  FormatFloat32 :: "float32 \<Rightarrow> string"
  FormatFloat64 :: "float64 \<Rightarrow> string"
  ParseFloat32 :: "string \<Rightarrow> float32 \<times> error option"
  uuid_String :: "nat \<Rightarrow> string"

fun digits :: "nat \<Rightarrow> string" where
  "digits n = (if n < 10 then [''0123456789'' ! n]
               else digits (n div 10) @ [''0123456789'' ! (n mod 10)])"

declare digits.simps [simp del]

definition itoa :: "int \<Rightarrow> string" where
  "itoa i = (if i < 0 then ''-'' @ digits (nat (- i)) else digits (nat i))"

fun join_sp :: "string list \<Rightarrow> string" where
  "join_sp [] = []"
| "join_sp [s] = s"
| "join_sp (s # t # ss) = s @ '' '' @ join_sp (t # ss)"

text \<open>\<open>fmt.Sprintf("%v", v)\<close>.\<close>

fun Sprintf_v :: "golib \<Rightarrow> any \<Rightarrow> string" where
  "Sprintf_v L (AString s) = s"
| "Sprintf_v L (AInt i) = itoa i"
| "Sprintf_v L (ABool b) = (if b then ''true'' else ''false'')"
| "Sprintf_v L (AFloat32 x) = FormatFloat32 L x"
| "Sprintf_v L (AFloat64 x) = FormatFloat64 L x"
| "Sprintf_v L (AFloat32s xs) = ''['' @ join_sp (map (FormatFloat32 L) xs) @ '']''"
| "Sprintf_v L (AFloat64s xs) = ''['' @ join_sp (map (FormatFloat64 L) xs) @ '']''"

text \<open>
  \<open>fmt.Sprintf("%s", v)\<close>: the verb \<open>%s\<close> prints a string as it is; an operand of a type
  the verb does not apply to is printed as \<open>%!s(type=value)\<close>, element by element for a
  slice.
\<close>

definition bad_verb :: "string \<Rightarrow> string \<Rightarrow> string" where
  "bad_verb ty v = ''%!s('' @ ty @ ''='' @ v @ '')''"

fun Sprintf_s :: "golib \<Rightarrow> any \<Rightarrow> string" where
  "Sprintf_s L (AString s) = s"
| "Sprintf_s L (AInt i) = bad_verb ''int'' (itoa i)"
| "Sprintf_s L (ABool b) = bad_verb ''bool'' (if b then ''true'' else ''false'')"
| "Sprintf_s L (AFloat32 x) = bad_verb ''float32'' (FormatFloat32 L x)"
| "Sprintf_s L (AFloat64 x) = bad_verb ''float64'' (FormatFloat64 L x)"
| "Sprintf_s L (AFloat32s xs) =
     ''['' @ join_sp (map (\<lambda>x. bad_verb ''float32'' (FormatFloat32 L x)) xs) @ '']''"
| "Sprintf_s L (AFloat64s xs) =
     ''['' @ join_sp (map (\<lambda>x. bad_verb ''float64'' (FormatFloat64 L x)) xs) @ '']''"

section \<open>The client and the store (package redisvector)\<close>

text \<open>
  \<open>RedisArbitraryCommand\<close> is the intermediate form of one command. The builder chain
  \<open>B().Arbitrary(Commands...).Keys(Keys...).Args(Args...).Build()\<close> of the client library
  yields the completed command: the tokens of the three lists in this order.
\<close>

record RedisArbitraryCommand =
  Commands :: "string list"
  Keys :: "string list"
  Args :: "string list"

type_synonym Completed = "string list"

definition Build :: "RedisArbitraryCommand \<Rightarrow> Completed" where
  "Build command = Commands command @ Keys command @ Args command"

definition FtInfo :: "string \<Rightarrow> Completed" where
  "FtInfo index = [''FT.INFO'', index]"

definition FtDropindex :: "string \<Rightarrow> bool \<Rightarrow> Completed" where
  "FtDropindex index dd = (if dd then [''FT.DROPINDEX'', index, ''DD''] else [''FT.DROPINDEX'', index])"

text \<open>
  A row of a search reply (\<open>rueidis.FtSearchDoc\<close>), the reply to a command, and the two
  readings of a reply that the sources use: \<open>Error()\<close> and \<open>AsFtSearch()\<close>.
\<close>

record FtSearchDoc =
  Key :: string
  Doc :: "(string \<times> string) list"
  Score :: float64

datatype RedisMessage = SimpleString string | SearchReply int "FtSearchDoc list"

datatype RedisResult = Failed error | Message RedisMessage

fun Error :: "RedisResult \<Rightarrow> error option" where
  "Error (Failed e) = Some e"
| "Error (Message m) = None"

fun AsFtSearch :: "RedisResult \<Rightarrow> error + (int \<times> FtSearchDoc list)" where
  "AsFtSearch (Failed e) = Inl e"
| "AsFtSearch (Message (SearchReply tot docs)) = Inr (tot, docs)"
| "AsFtSearch (Message (SimpleString s)) =
     Inl (Err ''rueidis: parse error: redis message type simple string is not a FT.SEARCH response'')"

text \<open>
  The state a call works on: the store behind the connection, the calls made on the
  client so far (\<open>Do\<close> with one command, \<open>DoMulti\<close> with a batch), the maps that the
  caller has allocated for its documents, which the code reaches through references, and
  the number of identifiers drawn from the generator. The store is a parameter \<open>exec\<close> of every
  operation: it answers one command in one state and gives the next state. A batch is
  answered command by command in the order sent, one reply for each command.
\<close>

datatype call = Single Completed | Pipeline "Completed list"

type_synonym ref = nat

record 'srv world =
  server :: 'srv
  sent :: "call list"
  heap :: "ref \<Rightarrow> doc"
  drawn :: nat

type_synonym 'srv store = "'srv \<Rightarrow> Completed \<Rightarrow> RedisResult \<times> 'srv"

definition Do :: "'srv store \<Rightarrow> 'srv world \<Rightarrow> Completed \<Rightarrow> RedisResult \<times> 'srv world" where
  "Do exec w cmd =
     (let (res, s) = exec (server w) cmd
      in (res, w\<lparr>server := s, sent := sent w @ [Single cmd]\<rparr>))"

fun exec_all :: "'srv store \<Rightarrow> 'srv \<Rightarrow> Completed list \<Rightarrow> RedisResult list \<times> 'srv" where
  "exec_all exec s [] = ([], s)"
| "exec_all exec s (cmd # cmds) =
     (let (res, s1) = exec s cmd;
          (ress, s2) = exec_all exec s1 cmds
      in (res # ress, s2))"

definition DoMulti ::
  "'srv store \<Rightarrow> 'srv world \<Rightarrow> Completed list \<Rightarrow> RedisResult list \<times> 'srv world" where
  "DoMulti exec w cmds =
     (let (ress, s) = exec_all exec (server w) cmds
      in (ress, w\<lparr>server := s, sent := sent w @ [Pipeline cmds]\<rparr>))"

subsection \<open>Index management\<close>

text \<open>
  The declarations of \<open>Index\<close> and \<open>IndexSchema\<close> and the method \<open>Index.ToCommand\<close> are
  not among the sources: the schema is a type parameter, the record has the four fields
  that \<open>CreateIndexIfNotExists\<close> sets, and \<open>ToCommand\<close> is a parameter.
\<close>

record 'schema Index =
  Name :: string
  Schema :: 'schema
  Prefix :: "string list"
  IndexType :: string

definition DropIndex :: "'srv store \<Rightarrow> 'srv world \<Rightarrow> string \<Rightarrow> bool \<Rightarrow> error option \<times> 'srv world" where
  "DropIndex exec w index deleteDocuments =
     (if deleteDocuments
      then (let (res, w1) = Do exec w (FtDropindex index True) in (Error res, w1))
      else (let (res, w1) = Do exec w (FtDropindex index False) in (Error res, w1)))"

definition CheckIndexExists :: "'srv store \<Rightarrow> 'srv world \<Rightarrow> string \<Rightarrow> bool \<times> 'srv world" where
  "CheckIndexExists exec w index =
     (if index = [] then (False, w)
      else (let (res, w1) = Do exec w (FtInfo index) in (Error res = None, w1)))"

definition getPrefix :: "string \<Rightarrow> string" where
  "getPrefix index = index @ '':''"

definition CreateIndexIfNotExists ::
  "'srv store \<Rightarrow> ('schema Index \<Rightarrow> RedisArbitraryCommand) \<Rightarrow> 'srv world \<Rightarrow> string \<Rightarrow> 'schema
     \<Rightarrow> error option \<times> 'srv world" where
  "CreateIndexIfNotExists exec ToCommand w index schema =
     (if index = [] then (errors_New ''empty index name'', w)
      else
        (let (exists, w1) = CheckIndexExists exec w index
         in if exists then (None, w1)
            else
              (let redisIndex = \<lparr>Name = index, Schema = schema,
                                  Prefix = [getPrefix index], IndexType = ''HASH''\<rparr>;
                   command = ToCommand redisIndex;
                   (res, w2) = Do exec w1 (Build command)
               in (Error res, w2))))"

subsection \<open>Insertion\<close>

text \<open>
  A document handed to an insertion is a Go map value: nil (\<open>None\<close>) or a reference to
  an allocated map. A nil map reads as the empty map (\<open>range\<close> visits nothing, a lookup
  finds nothing); an assignment to an entry of a nil map panics. \<open>mapassign\<close> is the
  assignment \<open>doc[k] = v\<close>, \<open>None\<close> being the panic.
\<close>

type_synonym docref = "ref option"

definition entries :: "'srv world \<Rightarrow> docref \<Rightarrow> doc" where
  "entries w r = (case r of None \<Rightarrow> [] | Some a \<Rightarrow> heap w a)"

definition mapassign :: "'srv world \<Rightarrow> docref \<Rightarrow> string \<Rightarrow> any \<Rightarrow> 'srv world option" where
  "mapassign w r k v =
     (case r of
        None \<Rightarrow> None
      | Some a \<Rightarrow> Some (w\<lparr>heap := (heap w)(a := AList.update k v (heap w a))\<rparr>))"

text \<open>
  The \<open>range\<close> loop of \<open>toHmsetCommand\<close> over the entries of the document; the last
  argument is \<open>command.Args\<close>.
\<close>

fun hmset_range :: "golib \<Rightarrow> doc \<Rightarrow> string list \<Rightarrow> string list" where
  "hmset_range L [] args = args"
| "hmset_range L ((key, value) # rest) args =
     hmset_range L rest
       (case value of
          AFloat64s v \<Rightarrow> args @ [key, float64VectorToString v]
        | AFloat32s v \<Rightarrow> args @ [key, float32VectorToString v]
        | _ \<Rightarrow> args @ [key, Sprintf_v L value])"

text \<open>
  \<open>toHmsetCommand\<close> returns the command, or panics in the assignment \<open>doc["id"] = \<dots>\<close>;
  the second component is the world when it returns or panics (in the last branch the
  identifier has been drawn before the assignment).
\<close>

definition toHmsetCommand ::
  "golib \<Rightarrow> 'srv world \<Rightarrow> string \<Rightarrow> docref \<Rightarrow> RedisArbitraryCommand outcome \<times> 'srv world" where
  "toHmsetCommand L w prefix r =
     (let doc = entries w r;
          command = \<lparr>Commands = [''HMSET''], Keys = [], Args = hmset_range L doc []\<rparr>
      in case map_of doc ''id'' of
           Some idx \<Rightarrow> (Returns (command\<lparr>Keys := [prefix @ '':'' @ Sprintf_s L idx]\<rparr>), w)
         | None \<Rightarrow>
             (case map_of doc ''keys'' of
                Some keys \<Rightarrow>
                  (case mapassign w r ''id'' keys of
                     None \<Rightarrow> (Panics ''assignment to entry in nil map'', w)
                   | Some w1 \<Rightarrow>
                       (Returns (command\<lparr>Keys := [prefix @ '':'' @ Sprintf_s L keys]\<rparr>), w1))
              | None \<Rightarrow>
                  (let uuidx = uuid_String L (drawn w);
                       w1 = w\<lparr>drawn := drawn w + 1\<rparr>
                   in case mapassign w1 r ''id'' (AString uuidx) of
                        None \<Rightarrow> (Panics ''assignment to entry in nil map'', w1)
                      | Some w2 \<Rightarrow>
                          (Returns (command\<lparr>Keys := [prefix @ '':'' @ Sprintf_s L (AString uuidx)]\<rparr>),
                           w2))))"

definition InsertWithHash ::
  "golib \<Rightarrow> 'srv store \<Rightarrow> 'srv world \<Rightarrow> string \<Rightarrow> docref
     \<Rightarrow> (string \<times> error option) outcome \<times> 'srv world" where
  "InsertWithHash L exec w index r =
     (case toHmsetCommand L w index r of
        (Panics msg, w1) \<Rightarrow> (Panics msg, w1)
      | (Returns command, w1) \<Rightarrow>
          (let (res, w2) = Do exec w1 (Build command)
           in (Returns (Keys command ! 0, Error res), w2)))"

text \<open>
  The two loops of \<open>InsertManyWithHash\<close>: over the documents, then over the replies. A
  panic in the first loop ends the call before anything is sent.
\<close>

fun docs_range ::
  "golib \<Rightarrow> 'srv world \<Rightarrow> string \<Rightarrow> docref list \<Rightarrow> Completed list \<Rightarrow> string list
     \<Rightarrow> (Completed list \<times> string list) outcome \<times> 'srv world" where
  "docs_range L w index [] commands docIDs = (Returns (commands, docIDs), w)"
| "docs_range L w index (r # rs) commands docIDs =
     (case toHmsetCommand L w index r of
        (Panics msg, w1) \<Rightarrow> (Panics msg, w1)
      | (Returns command, w1) \<Rightarrow>
          docs_range L w1 index rs (commands @ [Build command]) (docIDs @ [Keys command ! 0]))"

fun result_range :: "RedisResult list \<Rightarrow> error option list \<Rightarrow> error option list" where
  "result_range [] errs = errs"
| "result_range (res # ress) errs =
     result_range ress (if Error res \<noteq> None then errs @ [Error res] else errs)"

definition InsertManyWithHash ::
  "golib \<Rightarrow> 'srv store \<Rightarrow> 'srv world \<Rightarrow> string \<Rightarrow> docref list
     \<Rightarrow> (string list \<times> error option) outcome \<times> 'srv world" where
  "InsertManyWithHash L exec w index docs =
     (case docs_range L w index docs [] [] of
        (Panics msg, w1) \<Rightarrow> (Panics msg, w1)
      | (Returns (commands, docIDs), w1) \<Rightarrow>
          (let (result, w2) = DoMulti exec w1 commands;
               errs = result_range result []
           in (Returns (docIDs, errors_Join errs), w2)))"

subsection \<open>Search\<close>

text \<open>
  The inner loop of \<open>convertFTSearchResIntoMapSchema\<close> over the fields of one row (the
  last argument is \<open>docMap\<close>), the body of its outer loop for one row, and the function.
\<close>

fun fields_range :: "golib \<Rightarrow> (string \<times> string) list \<Rightarrow> doc \<Rightarrow> doc" where
  "fields_range L [] docMap = docMap"
| "fields_range L ((k, field) # rest) docMap =
     fields_range L rest
       (if k = ''distance''
        then (let score = fst (ParseFloat32 L field)
              in AList.update ''score'' (AFloat32 score) docMap)
        else AList.update k (AString field) docMap)"

definition convert_row :: "golib \<Rightarrow> FtSearchDoc \<Rightarrow> doc" where
  "convert_row L d =
     (let docMap = fields_range L (Doc d) []
      in if map_of docMap ''id'' = None then AList.update ''id'' (AString (Key d)) docMap
         else docMap)"

fun rows_range :: "golib \<Rightarrow> FtSearchDoc list \<Rightarrow> doc list \<Rightarrow> doc list" where
  "rows_range L [] result = result"
| "rows_range L (d # ds) result = rows_range L ds (result @ [convert_row L d])"

definition convertFTSearchResIntoMapSchema :: "golib \<Rightarrow> FtSearchDoc list \<Rightarrow> doc list" where
  "convertFTSearchResIntoMapSchema L docs = rows_range L docs []"

text \<open>
  \<open>RedisVectorQuery\<close> and its method \<open>ToCommand\<close> are not among the sources: the query is
  a type parameter and \<open>ToCommand\<close> a parameter. \<open>Find\<close> returns \<open>(0, nil, err)\<close> or
  \<open>(total, docs, nil)\<close>.
\<close>

definition Find ::
  "golib \<Rightarrow> 'srv store \<Rightarrow> ('query \<Rightarrow> RedisArbitraryCommand) \<Rightarrow> 'srv world \<Rightarrow> 'query
     \<Rightarrow> (error + (int \<times> doc list)) \<times> 'srv world" where
  "Find L exec ToCommand w query =
     (let command = ToCommand query;
          (res, w1) = Do exec w (Build command)
      in case AsFtSearch res of
           Inl err \<Rightarrow> (Inl err, w1)
         | Inr (tot, docs) \<Rightarrow> (Inr (tot, convertFTSearchResIntoMapSchema L docs), w1))"

section \<open>The vector store abstraction (package vectordb)\<close>

text \<open>
  A Go floating-point number that is compared: a real number, an infinity or a NaN, with
  the comparisons of IEEE-754 (every comparison with a NaN is false).
\<close>

datatype gofloat = Finite real | PosInf | NegInf | NaN

fun float_le :: "gofloat \<Rightarrow> gofloat \<Rightarrow> bool" where
  "float_le NaN y = False"
| "float_le x NaN = False"
| "float_le NegInf y = True"
| "float_le x PosInf = True"
| "float_le (Finite a) (Finite b) = (a \<le> b)"
| "float_le x y = False"

fun float_gt :: "gofloat \<Rightarrow> gofloat \<Rightarrow> bool" where
  "float_gt NaN y = False"
| "float_gt x NaN = False"
| "float_gt PosInf PosInf = False"
| "float_gt PosInf y = True"
| "float_gt NegInf y = False"
| "float_gt (Finite a) (Finite b) = (a > b)"
| "float_gt (Finite a) NegInf = True"
| "float_gt (Finite a) PosInf = False"

text \<open>
  Modelled from the spec: the declaration of \<open>vecdbtypes.CommonSpec\<close> is not among the
  sources; the spec gives it a store type tag and a similarity threshold (and a result
  limit, which the two functions below do not read). \<open>Spec\<close> embeds it and adds the two
  pointers to the engine-specific specs, whose types are parameters; a nil pointer is
  \<open>None\<close>.
\<close>

record CommonSpec =
  Type :: string
  Threshold :: gofloat

record ('r, 'p) Spec = CommonSpec +
  Redis :: "'r option"
  Postgres :: "'p option"

definition TypeRedis :: string where
  "TypeRedis = ''redis''"

definition TypePostgres :: string where
  "TypePostgres = ''postgres''"

text \<open>
  The constructors and validators of the two engines (\<open>redisvector.New\<close>, \<open>pgvector.New\<close>,
  \<open>redisvector.ValidateSpec\<close>, \<open>pgvector.ValidateSpec\<close>) are not among the sources: they
  are parameters, and may return or panic.
\<close>

definition New ::
  "(CommonSpec \<Rightarrow> 'r option \<Rightarrow> 'db outcome) \<Rightarrow> (CommonSpec \<Rightarrow> 'p option \<Rightarrow> 'db outcome)
     \<Rightarrow> ('r, 'p) Spec \<Rightarrow> 'db outcome" where
  "New redisvector_New pgvector_New spec =
     (if Type spec = TypeRedis then redisvector_New (CommonSpec.truncate spec) (Redis spec)
      else if Type spec = TypePostgres then pgvector_New (CommonSpec.truncate spec) (Postgres spec)
      else Panics ''not supported vector db type'')"

definition ValidateSpec ::
  "('r option \<Rightarrow> error option outcome) \<Rightarrow> ('p option \<Rightarrow> error option outcome)
     \<Rightarrow> ('r, 'p) Spec \<Rightarrow> error option outcome" where
  "ValidateSpec redisvector_ValidateSpec pgvector_ValidateSpec spec =
     (if float_le (Threshold spec) (Finite 0) \<or> float_gt (Threshold spec) (Finite 1.0)
      then Returns (fmt_Errorf ''invalid threshold'')
      else if Type spec = TypeRedis then redisvector_ValidateSpec (Redis spec)
      else if Type spec = TypePostgres then pgvector_ValidateSpec (Postgres spec)
      else Returns (fmt_Errorf ''invalid spec type''))"

section \<open>Notions used to state the properties\<close>

text \<open>
  The text to which \<open>toHmsetCommand\<close> turns one field value: the binary encoding for the
  two vector types, the rendering under \<open>%v\<close> for every other value; and the arguments
  that serialize the fields of a document: each name followed by the text of its value.
\<close>

definition serialize :: "golib \<Rightarrow> any \<Rightarrow> string" where
  "serialize L value =
     (case value of
        AFloat64s v \<Rightarrow> float64VectorToString v
      | AFloat32s v \<Rightarrow> float32VectorToString v
      | _ \<Rightarrow> Sprintf_v L value)"

definition field_args :: "golib \<Rightarrow> doc \<Rightarrow> string list" where
  "field_args L d = concat (map (\<lambda>(k, v). [k, serialize L v]) d)"

text \<open>A document for which an identifier is generated: it has neither \<open>id\<close> nor \<open>keys\<close>.\<close>

definition needs_uuid :: "doc \<Rightarrow> bool" where
  "needs_uuid d \<longleftrightarrow> map_of d ''id'' = None \<and> map_of d ''keys'' = None"

text \<open>
  A document after the identifier assignment of an insertion that would draw the \<open>n\<close>-th
  generated identifier: unchanged when it has an \<open>id\<close>, and otherwise with the entry \<open>id\<close>
  added, holding the value of \<open>keys\<close> when there is one and the generated identifier
  when there is none.
\<close>

definition assign_id :: "golib \<Rightarrow> nat \<Rightarrow> doc \<Rightarrow> doc" where
  "assign_id L n d =
     (case map_of d ''id'' of
        Some idx \<Rightarrow> d
      | None \<Rightarrow>
          (case map_of d ''keys'' of
             Some keys \<Rightarrow> d @ [(''id'', keys)]
           | None \<Rightarrow> d @ [(''id'', AString (uuid_String L n))]))"

text \<open>
  The identifier chosen for a document, by priority: the value of \<open>id\<close>, else the value
  of \<open>keys\<close>, else the \<open>n\<close>-th generated identifier.
\<close>

definition chosen_id :: "golib \<Rightarrow> nat \<Rightarrow> doc \<Rightarrow> any" where
  "chosen_id L n d =
     (case map_of d ''id'' of
        Some idx \<Rightarrow> idx
      | None \<Rightarrow>
          (case map_of d ''keys'' of
             Some keys \<Rightarrow> keys
           | None \<Rightarrow> AString (uuid_String L n)))"

text \<open>
  The commands that \<open>toHmsetCommand\<close> builds for the allocated documents of a list, one
  after the other, and the world after the last one.
\<close>

fun hmset_commands ::
  "golib \<Rightarrow> 'srv world \<Rightarrow> string \<Rightarrow> ref list \<Rightarrow> RedisArbitraryCommand list \<times> 'srv world" where
  "hmset_commands L w index [] = ([], w)"
| "hmset_commands L w index (a # as) =
     (case toHmsetCommand L w index (Some a) of
        (Panics msg, w1) \<Rightarrow> ([], w1)
      | (Returns command, w1) \<Rightarrow>
          (let (commands, w2) = hmset_commands L w1 index as
           in (command # commands, w2)))"

text \<open>
  What idempotence of index creation needs from the store, for one index name and its
  creation command: the existence probe does not change the store; after a creation
  that succeeded the probe succeeds; a creation that failed has changed nothing.
\<close>

definition index_store :: "'srv store \<Rightarrow> string \<Rightarrow> Completed \<Rightarrow> bool" where
  "index_store exec index create \<longleftrightarrow>
     (\<forall>s. snd (exec s (FtInfo index)) = s) \<and>
     (\<forall>s. Error (fst (exec s create)) = None \<longrightarrow>
          Error (fst (exec (snd (exec s create)) (FtInfo index))) = None) \<and>
     (\<forall>s. Error (fst (exec s create)) \<noteq> None \<longrightarrow> snd (exec s create) = s)"

section \<open>A library and a store to run the definitions on\<close>

text \<open>
  \<open>example_ParseFloat32\<close> is a table of what \<open>strconv.ParseFloat(s, 32)\<close> answers on four
  strings: \<open>0.12\<close> is parsed to the nearest \<open>float32\<close> (bits \<open>0x3DF5C28F\<close>); \<open>1e40\<close> and
  \<open>-1e40\<close> are well-formed but beyond the largest \<open>float32\<close>, for which \<open>ParseFloat\<close>
  returns the infinity of that sign (bits \<open>0x7F800000\<close>, \<open>0xFF800000\<close>) together with a
  range error; \<open>abc\<close> is not a number and gives \<open>0\<close> together with a syntax error. A
  string that is not in the table is answered with an error that says so; no statement
  below reads that answer.
\<close>

definition example_table :: "(string \<times> float32 \<times> error option) list" where
  "example_table =
     [(''0.12'', 0x3DF5C28F, None),
      (''1e40'', 0x7F800000, Some (Err ''strconv.ParseFloat: value out of range'')),
      (''-1e40'', 0xFF800000, Some (Err ''strconv.ParseFloat: value out of range'')),
      (''abc'', 0, Some (Err ''strconv.ParseFloat: invalid syntax''))]"

definition example_ParseFloat32 :: "string \<Rightarrow> float32 \<times> error option" where
  "example_ParseFloat32 s =
     (case map_of example_table s of
        Some answer \<Rightarrow> answer
      | None \<Rightarrow> (0, Some (Err ''example_table: no entry for this string'')))"

definition example_lib :: golib where
  "example_lib =
     \<lparr>FormatFloat32 = (\<lambda>x. if x = 0 then ''0'' else ''1''),
      FormatFloat64 = (\<lambda>x. if x = 0 then ''0'' else ''1''),
      ParseFloat32 = example_ParseFloat32,
      uuid_String = (\<lambda>n. ''uuid-'' @ digits n)\<rparr>"

text \<open>
  A small store: its state is the list of the names of the indexes that exist.
  \<open>FT.INFO\<close> fails on an unknown index, \<open>FT.CREATE\<close> fails on an existing one and adds
  the index otherwise, \<open>HMSET\<close> fails unless it is given field and value pairs, and
  every other command succeeds.
\<close>

definition example_exec :: "string list store" where
  "example_exec s cmd =
     (case cmd of
        [] \<Rightarrow> (Failed (Err ''ERR empty command''), s)
      | [c] \<Rightarrow> (Failed (Err ''ERR wrong number of arguments''), s)
      | c # k # args \<Rightarrow>
          if c = ''FT.INFO''
          then (if k \<in> set s then (Message (SimpleString ''index''), s)
                else (Failed (Err ''Unknown index name''), s))
          else if c = ''FT.CREATE''
          then (if k \<in> set s then (Failed (Err ''Index already exists''), s)
                else (Message (SimpleString ''OK''), k # s))
          else if c = ''HMSET''
          then (if args = [] \<or> odd (length args)
                then (Failed (Err ''ERR wrong number of arguments''), s)
                else (Message (SimpleString ''OK''), s))
          else (Message (SimpleString ''OK''), s))"

definition example_ToCommand :: "unit Index \<Rightarrow> RedisArbitraryCommand" where
  "example_ToCommand index =
     \<lparr>Commands = [''FT.CREATE''], Keys = [Name index],
      Args = [''ON'', IndexType index, ''PREFIX'', ''1''] @ Prefix index\<rparr>"

text \<open>A world with no index, no call made yet, and the documents \<open>ds\<close> at the references \<open>0, 1, \<dots>\<close>.\<close>

definition example_world :: "doc list \<Rightarrow> string list world" where
  "example_world ds =
     \<lparr>server = [], sent = [],
      heap = (\<lambda>r. if r < length ds then ds ! r else []), drawn = 0\<rparr>"

text \<open>
  Three documents: one with the identifier \<open>42\<close>, an empty one, and one with a \<open>keys\<close>
  field and a vector.
\<close>

definition example_docs :: "doc list" where
  "example_docs =
     [[(''id'', AString ''42'')],
      [],
      [(''keys'', AString ''k''), (''v'', AFloat32s [0x3F800000])]]"

text \<open>
  Three rows of a search reply: one with the distance \<open>0.12\<close> and a title, one whose
  distance is not a number, and one whose distance is out of the range of a \<open>float32\<close>.
\<close>

definition example_rows :: "FtSearchDoc list" where
  "example_rows =
     [\<lparr>Key = ''idx:7'', Doc = [(''distance'', ''0.12''), (''title'', ''a'')], Score = 0\<rparr>,
      \<lparr>Key = ''idx:8'', Doc = [(''distance'', ''abc'')], Score = 0\<rparr>,
      \<lparr>Key = ''idx:9'', Doc = [(''id'', ''9''), (''distance'', ''1e40'')], Score = 0\<rparr>]"

section \<open>Properties of the codec\<close>

lemma length_le32 [simp]: "length (le32 v) = 4"
  by (simp add: le32_def)

lemma length_le64 [simp]: "length (le64 v) = 8"
  by (simp add: le64_def)

lemma PutUint32_splice:
  assumes "off + 4 \<le> length b"
  shows "PutUint32 b off v = take off b @ le32 v @ drop (off + 4) b"
proof (rule nth_equalityI)
  show "length (PutUint32 b off v) = length (take off b @ le32 v @ drop (off + 4) b)"
    using assms by (simp add: PutUint32_def)
next
  fix i assume "i < length (PutUint32 b off v)"
  then have i: "i < length b" by (simp add: PutUint32_def)
  consider "i < off" | "i = off" | "i = off + 1" | "i = off + 2" | "i = off + 3" | "off + 4 \<le> i"
    by linarith
  then show "PutUint32 b off v ! i = (take off b @ le32 v @ drop (off + 4) b) ! i"
    using i assms
    by cases (simp_all add: PutUint32_def nth_append le32_def add.commute)
qed

lemma PutUint64_splice:
  assumes "off + 8 \<le> length b"
  shows "PutUint64 b off v = take off b @ le64 v @ drop (off + 8) b"
proof (rule nth_equalityI)
  show "length (PutUint64 b off v) = length (take off b @ le64 v @ drop (off + 8) b)"
    using assms by (simp add: PutUint64_def)
next
  fix i assume "i < length (PutUint64 b off v)"
  then have i: "i < length b" by (simp add: PutUint64_def)
  consider "i < off" | "i = off" | "i = off + 1" | "i = off + 2" | "i = off + 3"
    | "i = off + 4" | "i = off + 5" | "i = off + 6" | "i = off + 7" | "off + 8 \<le> i"
    by linarith
  then show "PutUint64 b off v ! i = (take off b @ le64 v @ drop (off + 8) b) ! i"
    using i assms
    by cases (simp_all add: PutUint64_def nth_append le64_def add.commute)
qed

lemma float32_range_splice:
  "(i + length es) * 4 \<le> length b \<Longrightarrow>
   float32_range i es b = take (i * 4) b @ concat (map le32 es) @ drop ((i + length es) * 4) b"
proof (induction es arbitrary: i b)
  case Nil
  then show ?case by simp
next
  case (Cons e es)
  define b' where "b' = PutUint32 b (i * 4) (Float32bits e)"
  have off: "i * 4 + 4 \<le> length b" using Cons.prems by simp
  have b': "b' = take (i * 4) b @ le32 e @ drop (i * 4 + 4) b"
    unfolding b'_def using off by (simp add: PutUint32_splice Float32bits_def)
  have len: "length b' = length b"
    by (simp add: b'_def PutUint32_def)
  have tk: "take ((i + 1) * 4) b' = take (i * 4) b @ le32 e"
    using off by (simp add: b')
  have dr: "drop ((i + 1 + length es) * 4) b' = drop ((i + length (e # es)) * 4) b"
    using off Cons.prems by (simp add: b' add.commute add.left_commute)
  have "float32_range i (e # es) b = float32_range (i + 1) es b'"
    by (simp add: b'_def)
  also have "\<dots> = take ((i + 1) * 4) b' @ concat (map le32 es) @ drop ((i + 1 + length es) * 4) b'"
    using Cons.prems by (intro Cons.IH) (simp add: len)
  also have "\<dots> = (take (i * 4) b @ le32 e) @ concat (map le32 es) @ drop ((i + length (e # es)) * 4) b"
    by (simp only: tk dr)
  also have "\<dots> = take (i * 4) b @ concat (map le32 (e # es)) @ drop ((i + length (e # es)) * 4) b"
    by simp
  finally show ?case .
qed

lemma float64_range_splice:
  "(i + length es) * 8 \<le> length b \<Longrightarrow>
   float64_range i es b = take (i * 8) b @ concat (map le64 es) @ drop ((i + length es) * 8) b"
proof (induction es arbitrary: i b)
  case Nil
  then show ?case by simp
next
  case (Cons e es)
  define b' where "b' = PutUint64 b (i * 8) (Float64bits e)"
  have off: "i * 8 + 8 \<le> length b" using Cons.prems by simp
  have b': "b' = take (i * 8) b @ le64 e @ drop (i * 8 + 8) b"
    unfolding b'_def using off by (simp add: PutUint64_splice Float64bits_def)
  have len: "length b' = length b"
    by (simp add: b'_def PutUint64_def)
  have tk: "take ((i + 1) * 8) b' = take (i * 8) b @ le64 e"
    using off by (simp add: b')
  have dr: "drop ((i + 1 + length es) * 8) b' = drop ((i + length (e # es)) * 8) b"
    using off Cons.prems by (simp add: b' add.commute add.left_commute)
  have "float64_range i (e # es) b = float64_range (i + 1) es b'"
    by (simp add: b'_def)
  also have "\<dots> = take ((i + 1) * 8) b' @ concat (map le64 es) @ drop ((i + 1 + length es) * 8) b'"
    using Cons.prems by (intro Cons.IH) (simp add: len)
  also have "\<dots> = (take (i * 8) b @ le64 e) @ concat (map le64 es) @ drop ((i + length (e # es)) * 8) b"
    by (simp only: tk dr)
  also have "\<dots> = take (i * 8) b @ concat (map le64 (e # es)) @ drop ((i + length (e # es)) * 8) b"
    by simp
  finally show ?case .
qed

lemma float32VectorToString_concat:
  "float32VectorToString v = unsafe_String (concat (map le32 v))"
  using float32_range_splice [of 0 v "replicate (length v * 4) 0"]
  by (simp add: float32VectorToString_def)

lemma float64VectorToString_concat:
  "float64VectorToString v = unsafe_String (concat (map le64 v))"
  using float64_range_splice [of 0 v "replicate (length v * 8) 0"]
  by (simp add: float64VectorToString_def)

lemma length_concat_le32: "length (concat (map le32 v)) = 4 * length v"
  by (induction v) simp_all

lemma length_concat_le64: "length (concat (map le64 v)) = 8 * length v"
  by (induction v) simp_all

lemma concat_le32_nth:
  assumes "i < length v" "j < 4"
  shows "concat (map le32 v) ! (4 * i + j) = le32 (v ! i) ! j"
  using assms
proof (induction v arbitrary: i)
  case Nil then show ?case by simp
next
  case (Cons a v)
  show ?case
  proof (cases i)
    case 0 then show ?thesis using Cons.prems by (simp add: nth_append)
  next
    case (Suc k)
    then have "4 * i + j = 4 + (4 * k + j)" by simp
    then show ?thesis using Cons Suc by (simp add: nth_append)
  qed
qed

lemma concat_le64_nth:
  assumes "i < length v" "j < 8"
  shows "concat (map le64 v) ! (8 * i + j) = le64 (v ! i) ! j"
  using assms
proof (induction v arbitrary: i)
  case Nil then show ?case by simp
next
  case (Cons a v)
  show ?case
  proof (cases i)
    case 0 then show ?thesis using Cons.prems by (simp add: nth_append)
  next
    case (Suc k)
    then have "8 * i + j = 8 + (8 * k + j)" by simp
    then show ?thesis using Cons Suc by (simp add: nth_append)
  qed
qed

lemma le32_nth:
  assumes "j < 4"
  shows "unat (le32 w ! j) = unat w div 2 ^ (8 * j) mod 256"
proof -
  consider "j = 0" | "j = 1" | "j = 2" | "j = 3" using assms by linarith
  then show ?thesis
    by cases (simp_all add: le32_def unsigned_ucast_eq unat_drop_bit_eq drop_bit_eq_div
        take_bit_eq_mod unat_div_distrib)
qed

lemma le64_nth:
  assumes "j < 8"
  shows "unat (le64 w ! j) = unat w div 2 ^ (8 * j) mod 256"
proof -
  consider "j = 0" | "j = 1" | "j = 2" | "j = 3" | "j = 4" | "j = 5" | "j = 6" | "j = 7"
    using assms by linarith
  then show ?thesis
    by cases (simp_all add: le64_def unsigned_ucast_eq unat_drop_bit_eq drop_bit_eq_div
        take_bit_eq_mod unat_div_distrib)
qed

lemma of_char_byte: "of_char (char_of (unat (x :: byte))) = unat x"
proof -
  have "unat x < 256" using unsigned_less [of x] by simp
  then show ?thesis by simp
qed

text \<open>
  C3. The encoding of a vector of \<open>n\<close> 32-bit floats has length \<open>4 * n\<close>, and its byte
  \<open>4 * i + j\<close> (for \<open>j < 4\<close>) is byte \<open>j\<close>, counted from the least significant one, of
  the IEEE-754 bit pattern of component \<open>i\<close>: the component occupies the bytes
  \<open>[4 * i, 4 * i + 4)\<close> in little-endian order. The encoding of a vector of \<open>n\<close> 64-bit
  floats has length \<open>8 * n\<close>, with component \<open>i\<close> in the bytes \<open>[8 * i, 8 * i + 8)\<close> in
  little-endian order.
\<close>

theorem vector_encoding_layout:
  "length (float32VectorToString v) = 4 * length v \<and>
   (\<forall>i j. i < length v \<and> j < 4 \<longrightarrow>
      of_char (float32VectorToString v ! (4 * i + j)) = unat (Float32bits (v ! i)) div 2 ^ (8 * j) mod 256) \<and>
   length (float64VectorToString u) = 8 * length u \<and>
   (\<forall>i j. i < length u \<and> j < 8 \<longrightarrow>
      of_char (float64VectorToString u ! (8 * i + j)) = unat (Float64bits (u ! i)) div 2 ^ (8 * j) mod 256)"
proof (intro conjI allI impI)
  show "length (float32VectorToString v) = 4 * length v"
    by (simp add: float32VectorToString_concat unsafe_String_def length_concat_le32)
  show "length (float64VectorToString u) = 8 * length u"
    by (simp add: float64VectorToString_concat unsafe_String_def length_concat_le64)
next
  fix i j :: nat assume a: "i < length v \<and> j < 4"
  then have "4 * i + j < length (concat (map le32 v))"
    by (simp add: length_concat_le32)
  then have "float32VectorToString v ! (4 * i + j) = char_of (unat (le32 (v ! i) ! j))"
    using a by (simp add: float32VectorToString_concat unsafe_String_def concat_le32_nth)
  then show "of_char (float32VectorToString v ! (4 * i + j)) =
             unat (Float32bits (v ! i)) div 2 ^ (8 * j) mod 256"
    using a by (simp add: of_char_byte le32_nth Float32bits_def)
next
  fix i j :: nat assume a: "i < length u \<and> j < 8"
  then have "8 * i + j < length (concat (map le64 u))"
    by (simp add: length_concat_le64)
  then have "float64VectorToString u ! (8 * i + j) = char_of (unat (le64 (u ! i) ! j))"
    using a by (simp add: float64VectorToString_concat unsafe_String_def concat_le64_nth)
  then show "of_char (float64VectorToString u ! (8 * i + j)) =
             unat (Float64bits (u ! i)) div 2 ^ (8 * j) mod 256"
    using a by (simp add: of_char_byte le64_nth Float64bits_def)
qed

text \<open>
  The vector \<open>[1.0, -2.5]\<close> of 32-bit floats (bits \<open>0x3F800000\<close>, \<open>0xC0200000\<close>) and the
  vector \<open>[1.0]\<close> of 64-bit floats (bits \<open>0x3FF0000000000000\<close>).
\<close>

theorem vector_encoding_layout_witness:
  "(1::nat) < length [0x3F800000, 0xC0200000 :: float32] \<and> (3::nat) < 4 \<and>
   length (float32VectorToString [0x3F800000, 0xC0200000]) = 8 \<and>
   of_char (float32VectorToString [0x3F800000, 0xC0200000] ! 7) = (192::nat) \<and>
   (0::nat) < length [0x3FF0000000000000 :: float64] \<and> (6::nat) < 8 \<and>
   length (float64VectorToString [0x3FF0000000000000]) = 8 \<and>
   of_char (float64VectorToString [0x3FF0000000000000] ! 6) = (240::nat)"
proof -
  note t = vector_encoding_layout [of "[0x3F800000, 0xC0200000]" "[0x3FF0000000000000]"]
  have a: "of_char (float32VectorToString [0x3F800000, 0xC0200000] ! (4 * 1 + 3)) =
           unat (Float32bits ([0x3F800000, 0xC0200000] ! 1)) div 2 ^ (8 * 3) mod 256"
    using t [THEN conjunct2, THEN conjunct1, rule_format, of 1 3] by simp
  have b: "of_char (float64VectorToString [0x3FF0000000000000] ! (8 * 0 + 6)) =
           unat (Float64bits ([0x3FF0000000000000] ! 0)) div 2 ^ (8 * 6) mod 256"
    using t [THEN conjunct2, THEN conjunct2, THEN conjunct2, rule_format, of 0 6] by simp
  have l: "length (float32VectorToString [0x3F800000, 0xC0200000]) = 8"
          "length (float64VectorToString [0x3FF0000000000000]) = 8"
    using t by simp_all
  show ?thesis using a b l by (simp add: Float32bits_def Float64bits_def)
qed


section \<open>Properties of the vector store abstraction\<close>

text \<open>
  C4 as stated fails: a threshold inside \<open>(0, 1.0]\<close> does not make \<open>ValidateSpec\<close>
  accept. With the threshold \<open>0.5\<close>, the type tag \<open>mysql\<close> and engine validators that
  accept everything, it returns the error \<open>invalid spec type\<close>.
\<close>

theorem ValidateSpec_unknown_type_counterexample:
  "ValidateSpec (\<lambda>r. Returns None) (\<lambda>p. Returns None)
     \<lparr>Type = ''mysql'', Threshold = Finite 0.5, Redis = None, Postgres = None\<rparr>
   = Returns (Some (Err ''invalid spec type''))"
  by (simp add: ValidateSpec_def TypeRedis_def TypePostgres_def fmt_Errorf_def)

text \<open>
  C4, amended. For a threshold \<open>t\<close> with \<open>t \<le> 0\<close> or \<open>t > 1.0\<close>, \<open>ValidateSpec\<close> returns the
  error \<open>invalid threshold\<close>, whatever the engine validators would do: they are not
  consulted (and so for an infinite threshold). For \<open>0 < t \<le> 1.0\<close> the threshold check passes and the result is the
  result of the validator of the engine that the type tag names, and the error
  \<open>invalid spec type\<close> when the tag is neither \<open>redis\<close> nor \<open>postgres\<close>.
\<close>

theorem ValidateSpec_threshold:
  "(Threshold spec = Finite t \<and> (t \<le> 0 \<or> 1 < t) \<longrightarrow>
      ValidateSpec rv pv spec = Returns (Some (Err ''invalid threshold''))) \<and>
   (Threshold spec = PosInf \<or> Threshold spec = NegInf \<longrightarrow>
      ValidateSpec rv pv spec = Returns (Some (Err ''invalid threshold''))) \<and>
   (Threshold spec = Finite t \<and> 0 < t \<and> t \<le> 1 \<longrightarrow>
      ValidateSpec rv pv spec =
        (if Type spec = ''redis'' then rv (Redis spec)
         else if Type spec = ''postgres'' then pv (Postgres spec)
         else Returns (Some (Err ''invalid spec type''))))"
  by (auto simp add: ValidateSpec_def TypeRedis_def TypePostgres_def fmt_Errorf_def)

text \<open>
  A threshold of \<open>1.5\<close> is rejected even when the validator of the engine would panic;
  a threshold of \<open>0.5\<close> with the tag \<open>redis\<close> gives what the validator of the engine gives.
\<close>

theorem ValidateSpec_threshold_witness:
  "Threshold \<lparr>Type = ''redis'', Threshold = Finite 1.5, Redis = Some (), Postgres = None :: unit option\<rparr>
     = Finite 1.5 \<and> (1 :: real) < 1.5 \<and>
   ValidateSpec (\<lambda>r. Panics ''unreachable'') (\<lambda>p. Panics ''unreachable'')
     \<lparr>Type = ''redis'', Threshold = Finite 1.5, Redis = Some (), Postgres = None :: unit option\<rparr>
     = Returns (Some (Err ''invalid threshold'')) \<and>
   Threshold \<lparr>Type = ''redis'', Threshold = Finite 0.5, Redis = Some (), Postgres = None :: unit option\<rparr>
     = Finite 0.5 \<and> (0 :: real) < 0.5 \<and> (0.5 :: real) \<le> 1 \<and>
   ValidateSpec (\<lambda>r. Returns None) (\<lambda>p. Panics ''unreachable'')
     \<lparr>Type = ''redis'', Threshold = Finite 0.5, Redis = Some (), Postgres = None :: unit option\<rparr>
     = Returns None"
  using
    ValidateSpec_threshold [of
      "\<lparr>Type = ''redis'', Threshold = Finite 1.5, Redis = Some (), Postgres = None :: unit option\<rparr>"
      "1.5" "\<lambda>r. Panics ''unreachable''" "\<lambda>p. Panics ''unreachable''"]
    ValidateSpec_threshold [of
      "\<lparr>Type = ''redis'', Threshold = Finite 0.5, Redis = Some (), Postgres = None :: unit option\<rparr>"
      "0.5" "\<lambda>r. Returns None" "\<lambda>p. Panics ''unreachable''"]
  by simp

text \<open>
  C7. For a spec whose type tag is neither \<open>redis\<close> nor \<open>postgres\<close>, \<open>New\<close> panics (with
  the message \<open>not supported vector db type\<close>) and returns nothing, while \<open>ValidateSpec\<close>
  on the same spec returns an error value and does not panic.
\<close>

theorem New_unknown_type_panics:
  assumes "Type spec \<noteq> ''redis''" and "Type spec \<noteq> ''postgres''"
  shows "New rn pn spec = Panics ''not supported vector db type'' \<and>
         (\<exists>e. ValidateSpec rv pv spec = Returns (Some e))"
  using assms
  by (auto simp add: New_def ValidateSpec_def TypeRedis_def TypePostgres_def fmt_Errorf_def)

theorem New_unknown_type_panics_witness:
  "Type \<lparr>Type = ''mysql'', Threshold = Finite 0.5, Redis = None :: unit option,
          Postgres = None :: unit option\<rparr> \<noteq> ''redis'' \<and>
   Type \<lparr>Type = ''mysql'', Threshold = Finite 0.5, Redis = None :: unit option,
          Postgres = None :: unit option\<rparr> \<noteq> ''postgres'' \<and>
   New (\<lambda>c r. Returns ()) (\<lambda>c p. Returns ())
     \<lparr>Type = ''mysql'', Threshold = Finite 0.5, Redis = None :: unit option,
      Postgres = None :: unit option\<rparr> = Panics ''not supported vector db type'' \<and>
   (\<exists>e. ValidateSpec (\<lambda>r. Returns None) (\<lambda>p. Returns None)
     \<lparr>Type = ''mysql'', Threshold = Finite 0.5, Redis = None :: unit option,
      Postgres = None :: unit option\<rparr> = Returns (Some e))"
  using New_unknown_type_panics [of
      "\<lparr>Type = ''mysql'', Threshold = Finite 0.5, Redis = None :: unit option,
        Postgres = None :: unit option\<rparr>"
      "\<lambda>c r. Returns ()" "\<lambda>c p. Returns ()" "\<lambda>r. Returns None" "\<lambda>p. Returns None"]
  by simp

section \<open>Properties of insertion\<close>

lemma hmset_range_concat: "hmset_range L d args = args @ field_args L d"
  by (induction d arbitrary: args) (auto simp: field_args_def serialize_def split: any.splits)

lemma update_absent: "map_of al k = None \<Longrightarrow> AList.update k v al = al @ [(k, v)]"
  by (induction al) (auto split: if_splits)

lemma map_of_assign_id: "map_of (assign_id L n d) ''id'' = Some (chosen_id L n d)"
  by (auto simp: assign_id_def chosen_id_def map_add_def split: option.splits)

lemma assign_id_present: "map_of d ''id'' = Some v \<Longrightarrow> assign_id L n d = d"
  by (simp add: assign_id_def)

lemma assign_id_idem: "assign_id L m (assign_id L n d) = assign_id L n d"
  using map_of_assign_id [of L n d] by (simp add: assign_id_present)

lemma needs_uuid_assign_id: "\<not> needs_uuid (assign_id L n d)"
  by (simp add: needs_uuid_def map_of_assign_id)

lemma toHmsetCommand_None:
  "toHmsetCommand L w prefix None =
     (Panics ''assignment to entry in nil map'', w\<lparr>drawn := drawn w + 1\<rparr>)"
  by (simp add: toHmsetCommand_def entries_def mapassign_def Let_def)

lemma toHmsetCommand_Some:
  "fst (toHmsetCommand L w prefix (Some a)) =
     Returns \<lparr>Commands = [''HMSET''],
              Keys = [prefix @ '':'' @ Sprintf_s L (chosen_id L (drawn w) (heap w a))],
              Args = field_args L (heap w a)\<rparr>"
  by (auto simp: toHmsetCommand_def entries_def mapassign_def chosen_id_def Let_def
      hmset_range_concat split: option.splits)

lemma toHmsetCommand_Some_world:
  "heap (snd (toHmsetCommand L w prefix (Some a))) =
     (heap w)(a := assign_id L (drawn w) (heap w a)) \<and>
   drawn (snd (toHmsetCommand L w prefix (Some a))) =
     drawn w + (if needs_uuid (heap w a) then 1 else 0) \<and>
   server (snd (toHmsetCommand L w prefix (Some a))) = server w \<and>
   sent (snd (toHmsetCommand L w prefix (Some a))) = sent w"
  by (auto simp: toHmsetCommand_def entries_def mapassign_def assign_id_def needs_uuid_def
      Let_def update_absent split: option.splits)

lemma toHmsetCommand_Some_eq:
  "toHmsetCommand L w prefix (Some a) =
     (Returns \<lparr>Commands = [''HMSET''],
               Keys = [prefix @ '':'' @ Sprintf_s L (chosen_id L (drawn w) (heap w a))],
               Args = field_args L (heap w a)\<rparr>,
      snd (toHmsetCommand L w prefix (Some a)))"
  using toHmsetCommand_Some [of L w prefix a] by (simp add: prod_eq_iff)

lemma hmset_commands_Cons:
  "hmset_commands L w index (a # as) =
     (\<lparr>Commands = [''HMSET''],
       Keys = [index @ '':'' @ Sprintf_s L (chosen_id L (drawn w) (heap w a))],
       Args = field_args L (heap w a)\<rparr>
        # fst (hmset_commands L (snd (toHmsetCommand L w index (Some a))) index as),
      snd (hmset_commands L (snd (toHmsetCommand L w index (Some a))) index as))"
  by (subst hmset_commands.simps, subst toHmsetCommand_Some_eq) (simp add: split_beta)

declare hmset_commands.simps(2) [simp del]

lemma hmset_commands_length: "length (fst (hmset_commands L w index as)) = length as"
  by (induction as arbitrary: w) (simp_all add: hmset_commands_Cons)

lemma hmset_commands_frame:
  "server (snd (hmset_commands L w index as)) = server w \<and>
   sent (snd (hmset_commands L w index as)) = sent w \<and>
   drawn w \<le> drawn (snd (hmset_commands L w index as))"
proof (induction as arbitrary: w)
  case Nil then show ?case by simp
next
  case (Cons a as)
  show ?case
    using Cons.IH [of "snd (toHmsetCommand L w index (Some a))"]
      toHmsetCommand_Some_world [of L w index a]
    by (simp add: hmset_commands_Cons)
qed

lemma hmset_commands_has_id:
  "map_of (heap w b) ''id'' = Some v \<Longrightarrow> heap (snd (hmset_commands L w index as)) b = heap w b"
proof (induction as arbitrary: w)
  case Nil then show ?case by simp
next
  case (Cons a as)
  have "heap (snd (toHmsetCommand L w index (Some a))) b = heap w b"
    using Cons.prems by (auto simp: toHmsetCommand_Some_world assign_id_present)
  with Cons.IH [of "snd (toHmsetCommand L w index (Some a))"] Cons.prems
  show ?case by (simp add: hmset_commands_Cons)
qed

lemma hmset_commands_heap_other:
  "b \<notin> set as \<Longrightarrow> heap (snd (hmset_commands L w index as)) b = heap w b"
  by (induction as arbitrary: w)
     (simp_all add: hmset_commands_Cons toHmsetCommand_Some_world)

lemma hmset_commands_first:
  "heap (snd (hmset_commands L w index (a # as))) a = assign_id L (drawn w) (heap w a)"
proof -
  have "map_of (heap (snd (toHmsetCommand L w index (Some a))) a) ''id'' =
        Some (chosen_id L (drawn w) (heap w a))"
    by (simp add: toHmsetCommand_Some_world map_of_assign_id)
  from hmset_commands_has_id [OF this] show ?thesis
    by (simp add: hmset_commands_Cons toHmsetCommand_Some_world)
qed

lemma hmset_commands_assigned:
  "b \<in> set as \<Longrightarrow> \<exists>v. map_of (heap (snd (hmset_commands L w index as)) b) ''id'' = Some v"
proof (induction as arbitrary: w)
  case Nil then show ?case by simp
next
  case (Cons a as)
  show ?case
  proof (cases "b = a")
    case True
    then show ?thesis by (simp add: hmset_commands_first map_of_assign_id)
  next
    case False
    then have "b \<in> set as" using Cons.prems by simp
    from Cons.IH [OF this, of "snd (toHmsetCommand L w index (Some a))"]
    show ?thesis by (simp add: hmset_commands_Cons)
  qed
qed

lemma hmset_commands_nth:
  "i < length as \<Longrightarrow>
   fst (hmset_commands L w index as) ! i =
     \<lparr>Commands = [''HMSET''],
      Keys = [index @ '':'' @
              Sprintf_s L (the (map_of (heap (snd (hmset_commands L w index as)) (as ! i)) ''id''))],
      Args = field_args L
               (if as ! i \<in> set (take i as) then heap (snd (hmset_commands L w index as)) (as ! i)
                else heap w (as ! i))\<rparr>"
proof (induction as arbitrary: w i)
  case Nil then show ?case by simp
next
  case (Cons a as)
  define w1 where "w1 = snd (toHmsetCommand L w index (Some a))"
  define w' where "w' = snd (hmset_commands L w1 index as)"
  have fin: "snd (hmset_commands L w index (a # as)) = w'"
    by (simp add: hmset_commands_Cons w1_def w'_def)
  have h1: "heap w1 = (heap w)(a := assign_id L (drawn w) (heap w a))"
    by (simp add: w1_def toHmsetCommand_Some_world)
  have a': "heap w' a = assign_id L (drawn w) (heap w a)"
    using hmset_commands_first [of L w index a as] by (simp add: fin)
  show ?case
  proof (cases i)
    case 0
    show ?thesis
      by (simp add: 0 hmset_commands_Cons w1_def [symmetric] w'_def [symmetric] a' map_of_assign_id)
  next
    case (Suc j)
    then have j: "j < length as" using Cons.prems by simp
    have IH: "fst (hmset_commands L w1 index as) ! j =
       \<lparr>Commands = [''HMSET''],
        Keys = [index @ '':'' @ Sprintf_s L (the (map_of (heap w' (as ! j)) ''id''))],
        Args = field_args L (if as ! j \<in> set (take j as) then heap w' (as ! j)
                             else heap w1 (as ! j))\<rparr>"
      using Cons.IH [OF j, of w1] by (simp add: w'_def)
    have content: "(if as ! j \<in> set (take j as) then heap w' (as ! j) else heap w1 (as ! j)) =
          (if as ! j \<in> set (take (Suc j) (a # as)) then heap w' (as ! j) else heap w (as ! j))"
    proof (cases "as ! j = a")
      case True
      then show ?thesis by (simp add: a' h1)
    next
      case False
      then show ?thesis by (simp add: h1)
    qed
    show ?thesis
      using content
      by (simp add: Suc hmset_commands_Cons w1_def [symmetric] w'_def [symmetric] IH)
  qed
qed

lemma hmset_commands_keys:
  "b \<in> set as \<Longrightarrow> map_of (heap w b) ''id'' = None \<Longrightarrow> map_of (heap w b) ''keys'' = Some k \<Longrightarrow>
   heap (snd (hmset_commands L w index as)) b = heap w b @ [(''id'', k)]"
proof (induction as arbitrary: w)
  case Nil then show ?case by simp
next
  case (Cons a as)
  show ?case
  proof (cases "b = a")
    case True
    then show ?thesis using Cons.prems by (simp add: hmset_commands_first assign_id_def)
  next
    case False
    then have "b \<in> set as" using Cons.prems by simp
    from Cons.IH [OF this, of "snd (toHmsetCommand L w index (Some a))"] False Cons.prems
    show ?thesis by (simp add: hmset_commands_Cons toHmsetCommand_Some_world)
  qed
qed

lemma hmset_commands_generated:
  "\<exists>f. inj_on f {a \<in> set as. needs_uuid (heap w a)} \<and>
       f ` {a \<in> set as. needs_uuid (heap w a)} =
         {drawn w ..< drawn (snd (hmset_commands L w index as))} \<and>
       (\<forall>a \<in> {a \<in> set as. needs_uuid (heap w a)}.
          heap (snd (hmset_commands L w index as)) a =
            heap w a @ [(''id'', AString (uuid_String L (f a)))])"
proof (induction as arbitrary: w)
  case Nil
  show ?case by simp
next
  case (Cons a as)
  define w1 where "w1 = snd (toHmsetCommand L w index (Some a))"
  define w' where "w' = snd (hmset_commands L w1 index as)"
  define F1 where "F1 = {b \<in> set as. needs_uuid (heap w1 b)}"
  define F where "F = {b \<in> set (a # as). needs_uuid (heap w b)}"
  have fin: "snd (hmset_commands L w index (a # as)) = w'"
    by (simp add: hmset_commands_Cons w1_def w'_def)
  have h1: "heap w1 = (heap w)(a := assign_id L (drawn w) (heap w a))"
    and d1: "drawn w1 = drawn w + (if needs_uuid (heap w a) then 1 else 0)"
    by (simp_all add: w1_def toHmsetCommand_Some_world)
  have mono: "drawn w1 \<le> drawn w'"
    using hmset_commands_frame [of L w1 index as] by (simp add: w'_def)
  have a': "heap w' a = assign_id L (drawn w) (heap w a)"
    using hmset_commands_first [of L w index a as] by (simp add: fin)
  have aF1: "a \<notin> F1"
    by (simp add: F1_def h1 needs_uuid_assign_id)
  from Cons.IH [of w1] obtain f1 where
    inj1: "inj_on f1 F1" and img1: "f1 ` F1 = {drawn w1 ..< drawn w'}" and
    heap1: "\<forall>b \<in> F1. heap w' b = heap w1 b @ [(''id'', AString (uuid_String L (f1 b)))]"
    unfolding F1_def w'_def by blast
  have other: "b \<in> F1 \<Longrightarrow> heap w1 b = heap w b" for b
    using aF1 by (auto simp: h1)
  show ?case
  proof (cases "needs_uuid (heap w a)")
    case True
    have FF: "F = insert a F1"
      using True by (auto simp: F_def F1_def h1 needs_uuid_assign_id)
    define f where "f = f1(a := drawn w)"
    have f_on: "b \<in> F1 \<Longrightarrow> f b = f1 b" for b
      using aF1 by (auto simp: f_def)
    have fa: "f a = drawn w" by (simp add: f_def)
    have "inj_on f F1" using inj1 f_on by (auto simp: inj_on_def)
    moreover have imgF1: "f ` F1 = {drawn w + 1 ..< drawn w'}"
      using img1 f_on True by (simp add: d1 image_def)
    moreover have "f a \<notin> f ` (F1 - {a})"
      using imgF1 fa aF1 by simp
    ultimately have inj: "inj_on f F"
      unfolding FF by (simp only: inj_on_insert simp_thms)
    have img: "f ` F = {drawn w ..< drawn w'}"
      unfolding FF using imgF1 fa mono True d1 by auto
    have hp: "\<forall>b \<in> F. heap w' b = heap w b @ [(''id'', AString (uuid_String L (f b)))]"
    proof
      fix b assume "b \<in> F"
      then consider "b = a" | "b \<in> F1" unfolding FF by blast
      then show "heap w' b = heap w b @ [(''id'', AString (uuid_String L (f b)))]"
      proof cases
        case 1
        then show ?thesis using True by (simp add: a' fa assign_id_def needs_uuid_def)
      next
        case 2
        then show ?thesis using heap1 other f_on by simp
      qed
    qed
    from inj img hp show ?thesis unfolding fin F_def by blast
  next
    case False
    have FF: "F = F1"
      using False by (auto simp: F_def F1_def h1 needs_uuid_assign_id)
    have "inj_on f1 F" "f1 ` F = {drawn w ..< drawn w'}"
      "\<forall>b \<in> F. heap w' b = heap w b @ [(''id'', AString (uuid_String L (f1 b)))]"
      unfolding FF using inj1 img1 heap1 other False by (simp_all add: d1)
    then show ?thesis unfolding fin F_def by blast
  qed
qed

lemma hmset_commands_drawn:
  "drawn (snd (hmset_commands L w index as)) =
     drawn w + card {a \<in> set as. needs_uuid (heap w a)}"
proof -
  from hmset_commands_generated [of as w L index] obtain f where
    f: "inj_on f {a \<in> set as. needs_uuid (heap w a)}"
       "f ` {a \<in> set as. needs_uuid (heap w a)} =
          {drawn w ..< drawn (snd (hmset_commands L w index as))}"
    by blast
  have "card {a \<in> set as. needs_uuid (heap w a)} =
        card {drawn w ..< drawn (snd (hmset_commands L w index as))}"
    using card_image [OF f(1)] f(2) by simp
  then show ?thesis
    using hmset_commands_frame [of L w index as] by simp
qed

lemma docs_range_Some_Cons:
  "docs_range L w index (Some a # rs) commands docIDs =
     docs_range L (snd (toHmsetCommand L w index (Some a))) index rs
       (commands @ [''HMSET'' # (index @ '':'' @ Sprintf_s L (chosen_id L (drawn w) (heap w a)))
                      # field_args L (heap w a)])
       (docIDs @ [index @ '':'' @ Sprintf_s L (chosen_id L (drawn w) (heap w a))])"
  by (subst docs_range.simps, subst toHmsetCommand_Some_eq) (simp add: Build_def)

lemma docs_range_None_Cons:
  "docs_range L w index (None # rs) commands docIDs =
     (Panics ''assignment to entry in nil map'', w\<lparr>drawn := drawn w + 1\<rparr>)"
  by (simp add: toHmsetCommand_None)

declare docs_range.simps(2) [simp del]

lemma docs_range_commands:
  "docs_range L w index (map Some as) commands docIDs =
     (Returns (commands @ map Build (fst (hmset_commands L w index as)),
               docIDs @ map (\<lambda>c. Keys c ! 0) (fst (hmset_commands L w index as))),
      snd (hmset_commands L w index as))"
  by (induction as arbitrary: w commands docIDs)
     (simp_all add: hmset_commands_Cons docs_range_Some_Cons Build_def)

lemma docs_range_nil:
  "None \<in> set docs \<Longrightarrow>
   fst (docs_range L w index docs commands docIDs) = Panics ''assignment to entry in nil map'' \<and>
   sent (snd (docs_range L w index docs commands docIDs)) = sent w \<and>
   server (snd (docs_range L w index docs commands docIDs)) = server w"
proof (induction docs arbitrary: w commands docIDs)
  case Nil then show ?case by simp
next
  case (Cons r docs)
  show ?case
  proof (cases r)
    case None
    then show ?thesis by (simp add: docs_range_None_Cons)
  next
    case (Some a)
    then have "None \<in> set docs" using Cons.prems by auto
    from Cons.IH [OF this, where w = "snd (toHmsetCommand L w index (Some a))"]
    show ?thesis
      unfolding Some by (simp add: docs_range_Some_Cons toHmsetCommand_Some_world)
  qed
qed

lemma non_nil_append: "non_nil (xs @ ys) = non_nil xs @ non_nil ys"
  by (induction xs rule: non_nil.induct) simp_all

lemma result_range_errors:
  "non_nil (result_range ress errs) = non_nil errs @ non_nil (map Error ress)"
  by (induction ress arbitrary: errs) (auto simp: non_nil_append)

lemma non_nil_empty_iff: "non_nil errs = [] \<longleftrightarrow> (\<forall>e\<in>set errs. e = None)"
  by (induction errs rule: non_nil.induct) simp_all

lemma exec_all_length: "length (fst (exec_all exec s cmds)) = length cmds"
  by (induction cmds arbitrary: s) (simp_all add: split_beta Let_def)

lemma errors_Join_None_iff: "errors_Join errs = None \<longleftrightarrow> non_nil errs = []"
  by (simp add: errors_Join_def)

lemma non_nil_map_Error_empty_iff:
  "non_nil (map Error ress) = [] \<longleftrightarrow> (\<forall>res\<in>set ress. Error res = None)"
  by (simp add: non_nil_empty_iff)

lemma errors_Join_result_range:
  "errors_Join (result_range ress []) = errors_Join (map Error ress)"
  by (simp add: errors_Join_def result_range_errors)

lemma InsertManyWithHash_unfold:
  "InsertManyWithHash L exec w index (map Some as) =
     (let cw = hmset_commands L w index as;
          rs = exec_all exec (server w) (map Build (fst cw))
      in (Returns (map (\<lambda>c. Keys c ! 0) (fst cw), errors_Join (map Error (fst rs))),
          (snd cw)\<lparr>server := snd rs, sent := sent w @ [Pipeline (map Build (fst cw))]\<rparr>))"
  using hmset_commands_frame [of L w index as]
  by (simp add: InsertManyWithHash_def docs_range_commands DoMulti_def split_beta Let_def
      errors_Join_result_range)

lemma InsertManyWithHash_nil:
  assumes "None \<in> set docs"
  shows "fst (InsertManyWithHash L exec w index docs) = Panics ''assignment to entry in nil map'' \<and>
         sent (snd (InsertManyWithHash L exec w index docs)) = sent w \<and>
         server (snd (InsertManyWithHash L exec w index docs)) = server w"
proof -
  obtain w1 where "docs_range L w index docs [] [] = (Panics ''assignment to entry in nil map'', w1)"
    and "sent w1 = sent w" and "server w1 = server w"
    using docs_range_nil [OF assms, of L w index "[]" "[]"] by (cases "docs_range L w index docs [] []") auto
  then show ?thesis by (simp add: InsertManyWithHash_def)
qed

lemma InsertWithHash_Some:
  "InsertWithHash L exec w index (Some a) =
     (let key = index @ '':'' @ Sprintf_s L (chosen_id L (drawn w) (heap w a));
          cmd = ''HMSET'' # key # field_args L (heap w a)
      in (Returns (key, Error (fst (exec (server w) cmd))),
          (snd (toHmsetCommand L w index (Some a)))
            \<lparr>server := snd (exec (server w) cmd), sent := sent w @ [Single cmd]\<rparr>))"
  by (simp add: InsertWithHash_def, subst toHmsetCommand_Some_eq)
     (simp add: Do_def Build_def split_beta Let_def toHmsetCommand_Some_world)

lemma InsertWithHash_None:
  "InsertWithHash L exec w index None =
     (Panics ''assignment to entry in nil map'', w\<lparr>drawn := drawn w + 1\<rparr>)"
  by (simp add: InsertWithHash_def toHmsetCommand_None)

lemma length_field_args: "length (field_args L d) = 2 * length d"
  by (induction d) (auto simp: field_args_def)

lemma field_args_nth:
  "j < length d \<Longrightarrow>
   field_args L d ! (2 * j) = fst (d ! j) \<and>
   field_args L d ! (2 * j + 1) = serialize L (snd (d ! j))"
proof (induction d arbitrary: j)
  case Nil then show ?case by simp
next
  case (Cons x d)
  obtain k v where x: "x = (k, v)" by (cases x)
  show ?case
  proof (cases j)
    case 0 then show ?thesis by (simp add: x field_args_def)
  next
    case (Suc i)
    then have "i < length d" using Cons.prems by simp
    from Cons.IH [OF this] show ?thesis by (simp add: x Suc field_args_def)
  qed
qed

lemma map_of_None_nth: "map_of d k = None \<Longrightarrow> j < length d \<Longrightarrow> fst (d ! j) \<noteq> k"
  by (metis map_of_eq_None_iff nth_mem image_eqI)

lemma InsertManyWithHash_heap:
  "heap (snd (InsertManyWithHash L exec w index (map Some as))) =
     heap (snd (hmset_commands L w index as)) \<and>
   drawn (snd (InsertManyWithHash L exec w index (map Some as))) =
     drawn (snd (hmset_commands L w index as))"
  by (simp add: InsertManyWithHash_unfold Let_def)

lemma InsertManyWithHash_entries:
  assumes "i < length as"
  shows "fst (hmset_commands L w index as) ! i =
      \<lparr>Commands = [''HMSET''],
       Keys = [index @ '':'' @
               Sprintf_s L (the (map_of (heap (snd (InsertManyWithHash L exec w index (map Some as)))
                                           (as ! i)) ''id''))],
       Args = field_args L
                (if as ! i \<in> set (take i as)
                 then heap (snd (InsertManyWithHash L exec w index (map Some as))) (as ! i)
                 else heap w (as ! i))\<rparr>"
    and "\<exists>v. map_of (heap (snd (InsertManyWithHash L exec w index (map Some as))) (as ! i)) ''id''
             = Some v"
proof -
  show "fst (hmset_commands L w index as) ! i =
      \<lparr>Commands = [''HMSET''],
       Keys = [index @ '':'' @
               Sprintf_s L (the (map_of (heap (snd (InsertManyWithHash L exec w index (map Some as)))
                                           (as ! i)) ''id''))],
       Args = field_args L
                (if as ! i \<in> set (take i as)
                 then heap (snd (InsertManyWithHash L exec w index (map Some as))) (as ! i)
                 else heap w (as ! i))\<rparr>"
    unfolding InsertManyWithHash_heap [THEN conjunct1] by (rule hmset_commands_nth [OF assms])
  have "as ! i \<in> set as" using assms by simp
  from hmset_commands_assigned [OF this, of L w index]
  show "\<exists>v. map_of (heap (snd (InsertManyWithHash L exec w index (map Some as))) (as ! i)) ''id''
             = Some v"
    by (simp add: InsertManyWithHash_heap)
qed

lemma InsertManyWithHash_Some:
  "\<exists>docIDs err w' commands results.
      InsertManyWithHash L exec w index (map Some as) = (Returns (docIDs, err), w') \<and>
      length docIDs = length as \<and>
      (\<forall>i. i < length as \<longrightarrow>
         (\<exists>v. map_of (heap w' (as ! i)) ''id'' = Some v \<and>
              (\<forall>s. v = AString s \<longrightarrow> docIDs ! i = index @ '':'' @ s))) \<and>
      length commands = length as \<and>
      (\<forall>i. i < length as \<longrightarrow>
         commands ! i =
           ''HMSET'' # docIDs ! i #
           field_args L (if as ! i \<in> set (take i as) then heap w' (as ! i) else heap w (as ! i))) \<and>
      sent w' = sent w @ [Pipeline commands] \<and>
      results = fst (exec_all exec (server w) commands) \<and>
      server w' = snd (exec_all exec (server w) commands) \<and>
      length results = length commands \<and>
      err = errors_Join (map Error results) \<and>
      (err = None \<longleftrightarrow> (\<forall>res\<in>set results. Error res = None)) \<and>
      (err \<noteq> None \<longrightarrow> err = Some (joinError (non_nil (map Error results))))"
proof -
  define cs where "cs = fst (hmset_commands L w index as)"
  define commands where "commands = map Build cs"
  define docIDs where "docIDs = map (\<lambda>c. Keys c ! 0) cs"
  define results where "results = fst (exec_all exec (server w) commands)"
  define err where "err = errors_Join (map Error results)"
  define w' where "w' = snd (InsertManyWithHash L exec w index (map Some as))"
  have len: "length cs = length as"
    by (simp add: cs_def hmset_commands_length)
  have c0: "InsertManyWithHash L exec w index (map Some as) = (Returns (docIDs, err), w')"
    by (simp add: w'_def InsertManyWithHash_unfold Let_def docIDs_def err_def results_def
        commands_def cs_def)
  have nth: "cs ! i =
      \<lparr>Commands = [''HMSET''],
       Keys = [index @ '':'' @ Sprintf_s L (the (map_of (heap w' (as ! i)) ''id''))],
       Args = field_args L (if as ! i \<in> set (take i as) then heap w' (as ! i)
                            else heap w (as ! i))\<rparr>"
    and hasid: "\<exists>v. map_of (heap w' (as ! i)) ''id'' = Some v" if "i < length as" for i
    using InsertManyWithHash_entries [OF that, where L = L and w = w and index = index
        and exec = exec]
    by (simp_all add: cs_def w'_def)
  have key: "docIDs ! i = index @ '':'' @ Sprintf_s L (the (map_of (heap w' (as ! i)) ''id''))"
    if "i < length as" for i
  proof -
    have "docIDs ! i = Keys (cs ! i) ! 0" using that len by (simp add: docIDs_def)
    also have "\<dots> = index @ '':'' @ Sprintf_s L (the (map_of (heap w' (as ! i)) ''id''))"
      by (subst nth [OF that]) simp
    finally show ?thesis .
  qed
  have c1: "length docIDs = length as" by (simp add: docIDs_def len)
  have c2: "\<forall>i. i < length as \<longrightarrow>
       (\<exists>v. map_of (heap w' (as ! i)) ''id'' = Some v \<and>
            (\<forall>s. v = AString s \<longrightarrow> docIDs ! i = index @ '':'' @ s))"
  proof (intro allI impI)
    fix i assume i: "i < length as"
    from hasid [OF i] obtain v where v: "map_of (heap w' (as ! i)) ''id'' = Some v" ..
    show "\<exists>v. map_of (heap w' (as ! i)) ''id'' = Some v \<and>
            (\<forall>s. v = AString s \<longrightarrow> docIDs ! i = index @ '':'' @ s)"
      using v key [OF i] by auto
  qed
  have c3: "\<forall>i. i < length as \<longrightarrow>
         commands ! i =
           ''HMSET'' # docIDs ! i #
           field_args L (if as ! i \<in> set (take i as) then heap w' (as ! i) else heap w (as ! i))"
  proof (intro allI impI)
    fix i assume i: "i < length as"
    have "commands ! i = Build (cs ! i)" using i len by (simp add: commands_def)
    also have "\<dots> = ''HMSET'' # docIDs ! i #
           field_args L (if as ! i \<in> set (take i as) then heap w' (as ! i) else heap w (as ! i))"
      by (subst nth [OF i]) (simp add: Build_def key [OF i])
    finally show "commands ! i =
           ''HMSET'' # docIDs ! i #
           field_args L (if as ! i \<in> set (take i as) then heap w' (as ! i) else heap w (as ! i))" .
  qed
  have c4: "length commands = length as" by (simp add: commands_def len)
  have c5: "sent w' = sent w @ [Pipeline commands]"
    and c6: "server w' = snd (exec_all exec (server w) commands)"
    by (simp_all add: w'_def InsertManyWithHash_unfold Let_def commands_def cs_def)
  have c7: "length results = length commands" by (simp add: results_def exec_all_length)
  have e2: "err = None \<longleftrightarrow> (\<forall>res\<in>set results. Error res = None)"
    by (simp add: err_def errors_Join_None_iff non_nil_map_Error_empty_iff)
  have e3: "err \<noteq> None \<longrightarrow> err = Some (joinError (non_nil (map Error results)))"
    by (simp add: err_def errors_Join_def)
  have "InsertManyWithHash L exec w index (map Some as) = (Returns (docIDs, err), w') \<and>
      length docIDs = length as \<and>
      (\<forall>i. i < length as \<longrightarrow>
         (\<exists>v. map_of (heap w' (as ! i)) ''id'' = Some v \<and>
              (\<forall>s. v = AString s \<longrightarrow> docIDs ! i = index @ '':'' @ s))) \<and>
      length commands = length as \<and>
      (\<forall>i. i < length as \<longrightarrow>
         commands ! i =
           ''HMSET'' # docIDs ! i #
           field_args L (if as ! i \<in> set (take i as) then heap w' (as ! i) else heap w (as ! i))) \<and>
      sent w' = sent w @ [Pipeline commands] \<and>
      results = fst (exec_all exec (server w) commands) \<and>
      server w' = snd (exec_all exec (server w) commands) \<and>
      length results = length commands \<and>
      err = errors_Join (map Error results) \<and>
      (err = None \<longleftrightarrow> (\<forall>res\<in>set results. Error res = None)) \<and>
      (err \<noteq> None \<longrightarrow> err = Some (joinError (non_nil (map Error results))))"
    by (intro conjI) (rule c0 c1 c2 c4 c3 c5 results_def c6 c7 err_def e2 e3)+
  then show ?thesis
    by (intro exI)
qed

lemmas example_eval =
  example_world_def example_docs_def example_lib_def example_exec_def toHmsetCommand_def
  entries_def mapassign_def InsertWithHash_def Do_def Let_def digits.simps
  float32VectorToString_def unsafe_String_def PutUint32_def Float32bits_def errors_Join_def
  Build_def serialize_def field_args_def itoa_def bad_verb_def chosen_id_def

text \<open>
  C1 as stated fails in two points. The entries of the returned list are not the
  identifiers chosen for the documents but the storage keys built from them: for the
  document with the identifier \<open>42\<close> and the index \<open>idx\<close> the entry is \<open>idx:42\<close>. And
  not every list of documents gets a result: a nil map among the documents makes the call
  panic.
\<close>

theorem InsertManyWithHash_returns_keys_counterexample:
  "chosen_id example_lib 0 (example_docs ! 0) = AString ''42'' \<and>
   fst (InsertManyWithHash example_lib example_exec (example_world example_docs) ''idx'' [Some 0])
     = Returns ([''idx:42''], None) \<and>
   fst (InsertManyWithHash example_lib example_exec (example_world example_docs) ''idx'' [Some 0])
     \<noteq> Returns ([''42''], None) \<and>
   fst (InsertManyWithHash example_lib example_exec (example_world example_docs) ''idx''
          [Some 0, None])
     = Panics ''assignment to entry in nil map''"
proof -
  have a: "fst (InsertManyWithHash example_lib example_exec (example_world example_docs) ''idx''
                  (map Some [0]))
     = Returns ([''idx:42''], None)"
    by (subst InsertManyWithHash_unfold)
       (simp add: hmset_commands_Cons toHmsetCommand_Some_world example_eval)
  have b: "fst (InsertManyWithHash example_lib example_exec (example_world example_docs) ''idx''
          [Some 0, None])
     = Panics ''assignment to entry in nil map''"
    by (simp add: InsertManyWithHash_nil)
  from a b show ?thesis by (simp add: example_eval)
qed

text \<open>
  C1, amended. For a list of allocated (non-nil) documents, \<open>InsertManyWithHash\<close> returns
  one entry per document, in input order. The client is called once, with a batch of one
  \<open>HMSET\<close> command per document; the \<open>i\<close>-th entry is the key of the \<open>i\<close>-th command, and
  the arguments of the \<open>i\<close>-th command serialize the fields that document \<open>i\<close> holds when
  the command is built: its fields before the call, or, when the same map occurs earlier
  in the list, its fields after the call. After the call document \<open>i\<close> has an \<open>id\<close>, and
  when that identifier is a string \<open>s\<close> the \<open>i\<close>-th entry is the storage key \<open>index:s\<close>.
  The store answers every command of the batch, and the returned error joins the
  failures of all of them, in order: it is nil exactly when every command succeeded.
  When a document of the list is a nil map, the call panics and nothing is sent.
\<close>

theorem InsertManyWithHash_batch:
  "(\<exists>docIDs err w' commands results.
      InsertManyWithHash L exec w index (map Some as) = (Returns (docIDs, err), w') \<and>
      length docIDs = length as \<and>
      (\<forall>i. i < length as \<longrightarrow>
         (\<exists>v. map_of (heap w' (as ! i)) ''id'' = Some v \<and>
              (\<forall>s. v = AString s \<longrightarrow> docIDs ! i = index @ '':'' @ s))) \<and>
      length commands = length as \<and>
      (\<forall>i. i < length as \<longrightarrow>
         commands ! i =
           ''HMSET'' # docIDs ! i #
           field_args L (if as ! i \<in> set (take i as) then heap w' (as ! i) else heap w (as ! i))) \<and>
      sent w' = sent w @ [Pipeline commands] \<and>
      results = fst (exec_all exec (server w) commands) \<and>
      server w' = snd (exec_all exec (server w) commands) \<and>
      length results = length commands \<and>
      err = errors_Join (map Error results) \<and>
      (err = None \<longleftrightarrow> (\<forall>res\<in>set results. Error res = None)) \<and>
      (err \<noteq> None \<longrightarrow> err = Some (joinError (non_nil (map Error results))))) \<and>
   (None \<in> set docs \<longrightarrow>
      fst (InsertManyWithHash L exec w index docs) = Panics ''assignment to entry in nil map'' \<and>
      sent (snd (InsertManyWithHash L exec w index docs)) = sent w \<and>
      server (snd (InsertManyWithHash L exec w index docs)) = server w)"
proof -
  have B: "None \<in> set docs \<longrightarrow>
      fst (InsertManyWithHash L exec w index docs) = Panics ''assignment to entry in nil map'' \<and>
      sent (snd (InsertManyWithHash L exec w index docs)) = sent w \<and>
      server (snd (InsertManyWithHash L exec w index docs)) = server w"
    using InsertManyWithHash_nil [of docs L exec w index] by blast
  from InsertManyWithHash_Some [of L exec w index as] B show ?thesis by (rule conjI)
qed

text \<open>
  The three example documents, the second one submitted twice: its first command has no
  field and fails, and the other three commands are still answered. With a nil map in the
  list the call panics.
\<close>

theorem InsertManyWithHash_batch_witness:
  "(\<exists>w' commands results.
      InsertManyWithHash example_lib example_exec (example_world example_docs) ''idx''
          (map Some [0, 1, 2, 1])
        = (Returns ([''idx:42'', ''idx:uuid-0'', ''idx:k'', ''idx:uuid-0''],
                    Some (joinError [Err ''ERR wrong number of arguments''])), w') \<and>
      length [''idx:42'', ''idx:uuid-0'', ''idx:k'', ''idx:uuid-0''] = length [0, 1, 2, 1 :: nat] \<and>
      length commands = length [0, 1, 2, 1 :: nat] \<and>
      sent w' = sent (example_world example_docs) @ [Pipeline commands] \<and>
      length results = length commands \<and>
      Some (joinError [Err ''ERR wrong number of arguments'']) = errors_Join (map Error results)) \<and>
   None \<in> set [Some 0, None :: docref] \<and>
   fst (InsertManyWithHash example_lib example_exec (example_world example_docs) ''idx''
          [Some 0, None])
     = Panics ''assignment to entry in nil map''"
proof -
  have ev: "fst (InsertManyWithHash example_lib example_exec (example_world example_docs) ''idx''
                   (map Some [0, 1, 2, 1]))
      = Returns ([''idx:42'', ''idx:uuid-0'', ''idx:k'', ''idx:uuid-0''],
                 Some (joinError [Err ''ERR wrong number of arguments'']))"
    by (subst InsertManyWithHash_unfold)
       (simp add: hmset_commands_Cons toHmsetCommand_Some_world assign_id_def needs_uuid_def
          example_eval)
  note t = InsertManyWithHash_batch [of example_lib example_exec "example_world example_docs"
      "''idx''" "[0, 1, 2, 1]" "[Some 0, None]"]
  from t [THEN conjunct1] obtain docIDs err w' commands results where
    r: "InsertManyWithHash example_lib example_exec (example_world example_docs) ''idx''
          (map Some [0, 1, 2, 1]) = (Returns (docIDs, err), w')"
    and l: "length docIDs = length [0, 1, 2, 1 :: nat]"
    and c: "length commands = length [0, 1, 2, 1 :: nat]"
    and s: "sent w' = sent (example_world example_docs) @ [Pipeline commands]"
    and n: "length results = length commands"
    and e: "err = errors_Join (map Error results)"
    by blast
  from r ev have d: "docIDs = [''idx:42'', ''idx:uuid-0'', ''idx:k'', ''idx:uuid-0'']"
    and e': "err = Some (joinError [Err ''ERR wrong number of arguments''])"
    by simp_all
  have "InsertManyWithHash example_lib example_exec (example_world example_docs) ''idx''
          (map Some [0, 1, 2, 1])
        = (Returns ([''idx:42'', ''idx:uuid-0'', ''idx:k'', ''idx:uuid-0''],
                    Some (joinError [Err ''ERR wrong number of arguments''])), w') \<and>
      length [''idx:42'', ''idx:uuid-0'', ''idx:k'', ''idx:uuid-0''] = length [0, 1, 2, 1 :: nat] \<and>
      length commands = length [0, 1, 2, 1 :: nat] \<and>
      sent w' = sent (example_world example_docs) @ [Pipeline commands] \<and>
      length results = length commands \<and>
      Some (joinError [Err ''ERR wrong number of arguments'']) = errors_Join (map Error results)"
    using r l c s n e unfolding d e' by (intro conjI) simp_all
  then have A: "\<exists>w' commands results.
      InsertManyWithHash example_lib example_exec (example_world example_docs) ''idx''
          (map Some [0, 1, 2, 1])
        = (Returns ([''idx:42'', ''idx:uuid-0'', ''idx:k'', ''idx:uuid-0''],
                    Some (joinError [Err ''ERR wrong number of arguments''])), w') \<and>
      length [''idx:42'', ''idx:uuid-0'', ''idx:k'', ''idx:uuid-0''] = length [0, 1, 2, 1 :: nat] \<and>
      length commands = length [0, 1, 2, 1 :: nat] \<and>
      sent w' = sent (example_world example_docs) @ [Pipeline commands] \<and>
      length results = length commands \<and>
      Some (joinError [Err ''ERR wrong number of arguments'']) = errors_Join (map Error results)"
    by (intro exI)
  have B: "fst (InsertManyWithHash example_lib example_exec (example_world example_docs) ''idx''
          [Some 0, None])
     = Panics ''assignment to entry in nil map''"
    using t [THEN conjunct2] by simp
  have C: "None \<in> set [Some 0, None :: docref]" by simp
  from A B C show ?thesis by (intro conjI)
qed

text \<open>
  C2 fails on the code for an identifier that is not a string: the key is built with the
  verb \<open>%s\<close>, while the same value is serialized with \<open>%v\<close> among the arguments. For the
  document \<open>{id: 42}\<close> with an integer \<open>42\<close> and the index \<open>idx\<close>, the returned key is
  \<open>idx:%!s(int=42)\<close> and the arguments are \<open>id\<close>, \<open>42\<close>.
\<close>

theorem InsertWithHash_int_id_key:
  "fst (InsertWithHash example_lib example_exec (example_world [[(''id'', AInt 42)]]) ''idx'' (Some 0))
     = Returns (''idx:%!s(int=42)'', None) \<and>
   fst (toHmsetCommand example_lib (example_world [[(''id'', AInt 42)]]) ''idx'' (Some 0))
     = Returns \<lparr>Commands = [''HMSET''], Keys = [''idx:%!s(int=42)''], Args = [''id'', ''42'']\<rparr>"
  by (simp add: example_eval)

text \<open>
  C8 as stated fails: for a document without \<open>id\<close> and \<open>keys\<close>, neither a field \<open>id\<close>
  nor the generated identifier is among the arguments of the command that
  \<open>InsertWithHash\<close> submits; the identifier is in the key only, and \<open>id\<close> is added to the
  document of the caller after the arguments have been built.
\<close>

theorem upsert_generated_id_counterexample:
  "fst (InsertWithHash example_lib example_exec (example_world [[(''title'', AString ''x'')]])
          ''idx'' (Some 0))
     = Returns (''idx:uuid-0'', None) \<and>
   sent (snd (InsertWithHash example_lib example_exec (example_world [[(''title'', AString ''x'')]])
                ''idx'' (Some 0)))
     = [Single [''HMSET'', ''idx:uuid-0'', ''title'', ''x'']] \<and>
   heap (snd (InsertWithHash example_lib example_exec (example_world [[(''title'', AString ''x'')]])
                ''idx'' (Some 0))) 0
     = [(''title'', AString ''x''), (''id'', AString ''uuid-0'')] \<and>
   ''id'' \<notin> set [''title'', ''x''] \<and> ''uuid-0'' \<notin> set [''title'', ''x'']"
  by (simp add: example_eval)

text \<open>
  C8, amended. For an allocated (non-nil) document, the command that \<open>InsertWithHash\<close>
  submits is \<open>HMSET\<close> with the returned key and, as arguments, the fields of the document
  as the caller supplied it, each name followed by its serialized value. The \<open>i\<close>-th
  command of the batch that \<open>InsertManyWithHash\<close> submits is \<open>HMSET\<close> with the \<open>i\<close>-th
  returned key and the fields that document \<open>i\<close> holds when the command is built: its
  fields before the call, or, when the same map occurs earlier in the list, its fields
  after the call, which include the \<open>id\<close> assigned at its first occurrence. The
  arguments of a document hold its field names at the even positions, so a field \<open>id\<close>
  that the document holds is written with its value, and for a document that holds no
  \<open>id\<close> (its identifier comes from \<open>keys\<close> or is generated) no field named \<open>id\<close> is
  written: the identifier is carried by the key, which is \<open>index:s\<close> when the identifier
  is a string \<open>s\<close>.
\<close>

theorem upsert_arguments:
  "(\<exists>key err w'.
      InsertWithHash L exec w index (Some a) = (Returns (key, err), w') \<and>
      sent w' = sent w @ [Single (''HMSET'' # key # field_args L (heap w a))] \<and>
      (\<forall>s. chosen_id L (drawn w) (heap w a) = AString s \<longrightarrow> key = index @ '':'' @ s)) \<and>
   (\<exists>docIDs err w' commands.
      InsertManyWithHash L exec w index (map Some as) = (Returns (docIDs, err), w') \<and>
      sent w' = sent w @ [Pipeline commands] \<and>
      length commands = length as \<and>
      (\<forall>i. i < length as \<longrightarrow>
         commands ! i =
           ''HMSET'' # docIDs ! i #
           field_args L (if as ! i \<in> set (take i as) then heap w' (as ! i) else heap w (as ! i)) \<and>
         (\<forall>s. map_of (heap w' (as ! i)) ''id'' = Some (AString s) \<longrightarrow>
              docIDs ! i = index @ '':'' @ s))) \<and>
   length (field_args L d) = 2 * length d \<and>
   (\<forall>j. j < length d \<longrightarrow>
      field_args L d ! (2 * j) = fst (d ! j) \<and>
      field_args L d ! (2 * j + 1) = serialize L (snd (d ! j))) \<and>
   (\<forall>j. j < length d \<and> map_of d ''id'' = None \<longrightarrow> field_args L d ! (2 * j) \<noteq> ''id'')"
proof -
  have A: "\<exists>key err w'.
      InsertWithHash L exec w index (Some a) = (Returns (key, err), w') \<and>
      sent w' = sent w @ [Single (''HMSET'' # key # field_args L (heap w a))] \<and>
      (\<forall>s. chosen_id L (drawn w) (heap w a) = AString s \<longrightarrow> key = index @ '':'' @ s)"
    by (simp add: InsertWithHash_Some Let_def)
  obtain docIDs err w' commands where
    r: "InsertManyWithHash L exec w index (map Some as) = (Returns (docIDs, err), w')"
    and s: "sent w' = sent w @ [Pipeline commands]"
    and l: "length commands = length as"
    and c: "\<forall>i. i < length as \<longrightarrow>
         commands ! i =
           ''HMSET'' # docIDs ! i #
           field_args L (if as ! i \<in> set (take i as) then heap w' (as ! i) else heap w (as ! i))"
    and k: "\<forall>i. i < length as \<longrightarrow>
         (\<exists>v. map_of (heap w' (as ! i)) ''id'' = Some v \<and>
              (\<forall>s. v = AString s \<longrightarrow> docIDs ! i = index @ '':'' @ s))"
    using InsertManyWithHash_Some [of L exec w index as] by blast
  have "\<forall>i. i < length as \<longrightarrow>
         commands ! i =
           ''HMSET'' # docIDs ! i #
           field_args L (if as ! i \<in> set (take i as) then heap w' (as ! i) else heap w (as ! i)) \<and>
         (\<forall>s. map_of (heap w' (as ! i)) ''id'' = Some (AString s) \<longrightarrow>
              docIDs ! i = index @ '':'' @ s)"
    using c k by fastforce
  with r s l have B: "\<exists>docIDs err w' commands.
      InsertManyWithHash L exec w index (map Some as) = (Returns (docIDs, err), w') \<and>
      sent w' = sent w @ [Pipeline commands] \<and>
      length commands = length as \<and>
      (\<forall>i. i < length as \<longrightarrow>
         commands ! i =
           ''HMSET'' # docIDs ! i #
           field_args L (if as ! i \<in> set (take i as) then heap w' (as ! i) else heap w (as ! i)) \<and>
         (\<forall>s. map_of (heap w' (as ! i)) ''id'' = Some (AString s) \<longrightarrow>
              docIDs ! i = index @ '':'' @ s))"
    by blast
  have C: "length (field_args L d) = 2 * length d"
    by (rule length_field_args)
  have D: "\<forall>j. j < length d \<longrightarrow>
      field_args L d ! (2 * j) = fst (d ! j) \<and>
      field_args L d ! (2 * j + 1) = serialize L (snd (d ! j))"
    using field_args_nth by blast
  have E: "\<forall>j. j < length d \<and> map_of d ''id'' = None \<longrightarrow> field_args L d ! (2 * j) \<noteq> ''id''"
    using field_args_nth [of _ d L] map_of_None_nth [of d "''id''"] by simp
  from A B C D E show ?thesis by (intro conjI)
qed

text \<open>
  The document with \<open>keys\<close>, the document with \<open>id\<close>, and a batch that submits the
  empty document twice: the second command writes the \<open>id\<close> that the first one assigned.
\<close>

theorem upsert_arguments_witness:
  "fst (InsertWithHash example_lib example_exec (example_world example_docs) ''idx'' (Some 2))
     = Returns (''idx:k'', None) \<and>
   sent (snd (InsertWithHash example_lib example_exec (example_world example_docs) ''idx'' (Some 2)))
     = [Single (''HMSET'' # ''idx:k'' # field_args example_lib (example_docs ! 2))] \<and>
   (1 :: nat) < length (example_docs ! 2) \<and>
   map_of (example_docs ! 2) ''id'' = None \<and>
   field_args example_lib (example_docs ! 2) ! (2 * 1) \<noteq> ''id'' \<and>
   (0 :: nat) < length (example_docs ! 0) \<and>
   field_args example_lib (example_docs ! 0) ! (2 * 0) = ''id'' \<and>
   field_args example_lib (example_docs ! 0) ! (2 * 0 + 1) = ''42'' \<and>
   (\<exists>err w' commands.
      InsertManyWithHash example_lib example_exec (example_world example_docs) ''idx''
          (map Some [1, 1])
        = (Returns ([''idx:uuid-0'', ''idx:uuid-0''], err), w') \<and>
      sent w' = [Pipeline commands] \<and>
      length commands = 2 \<and>
      commands ! 0 = [''HMSET'', ''idx:uuid-0''] \<and>
      commands ! 1 = [''HMSET'', ''idx:uuid-0'', ''id'', ''uuid-0''])"
proof -
  note t = upsert_arguments [of example_lib example_exec "example_world example_docs" "''idx''"
      2 "[1, 1]" "example_docs ! 2"]
  note u = upsert_arguments [of example_lib example_exec "example_world example_docs" "''idx''"
      2 "[1, 1]" "example_docs ! 0"]
  have ev1: "fst (InsertWithHash example_lib example_exec (example_world example_docs) ''idx''
                    (Some 2)) = Returns (''idx:k'', None)"
    by (simp add: example_eval)
  from t [THEN conjunct1] obtain key err w' where
    r: "InsertWithHash example_lib example_exec (example_world example_docs) ''idx'' (Some 2) =
          (Returns (key, err), w')"
    and s: "sent w' = sent (example_world example_docs) @
              [Single (''HMSET'' # key # field_args example_lib
                                            (heap (example_world example_docs) 2))]"
    by blast
  from r ev1 have "key = ''idx:k''" by simp
  with r s have A: "sent (snd (InsertWithHash example_lib example_exec (example_world example_docs)
                                ''idx'' (Some 2)))
     = [Single (''HMSET'' # ''idx:k'' # field_args example_lib (example_docs ! 2))]"
    by (simp add: example_world_def example_docs_def)
  have h: "(1 :: nat) < length (example_docs ! 2)" "map_of (example_docs ! 2) ''id'' = None"
          "(0 :: nat) < length (example_docs ! 0)"
    by (simp_all add: example_docs_def)
  have B: "field_args example_lib (example_docs ! 2) ! (2 * 1) \<noteq> ''id''"
    using t [THEN conjunct2, THEN conjunct2, THEN conjunct2, THEN conjunct2, rule_format, of 1] h
    by blast
  have C: "field_args example_lib (example_docs ! 0) ! (2 * 0) = ''id''"
          "field_args example_lib (example_docs ! 0) ! (2 * 0 + 1) = ''42''"
    using u [THEN conjunct2, THEN conjunct2, THEN conjunct2, THEN conjunct1, rule_format, of 0] h
    by (simp_all add: example_docs_def serialize_def)
  have ev2: "fst (InsertManyWithHash example_lib example_exec (example_world example_docs) ''idx''
                    (map Some [1, 1]))
      = Returns ([''idx:uuid-0'', ''idx:uuid-0''],
                 Some (joinError [Err ''ERR wrong number of arguments'']))"
    and ev3: "heap (snd (InsertManyWithHash example_lib example_exec (example_world example_docs)
                           ''idx'' (map Some [1, 1]))) 1 = [(''id'', AString ''uuid-0'')]"
    by (subst InsertManyWithHash_unfold,
        simp add: hmset_commands_Cons toHmsetCommand_Some_world assign_id_def needs_uuid_def
          example_eval)+
  from t [THEN conjunct2, THEN conjunct1] obtain docIDs err2 w2 commands where
    r2: "InsertManyWithHash example_lib example_exec (example_world example_docs) ''idx''
           (map Some [1, 1]) = (Returns (docIDs, err2), w2)"
    and s2: "sent w2 = sent (example_world example_docs) @ [Pipeline commands]"
    and l2: "length commands = length [1, 1 :: nat]"
    and c2: "\<forall>i. i < length [1, 1 :: nat] \<longrightarrow>
         commands ! i =
           ''HMSET'' # docIDs ! i #
           field_args example_lib
             (if [1, 1 :: nat] ! i \<in> set (take i [1, 1 :: nat]) then heap w2 ([1, 1] ! i)
              else heap (example_world example_docs) ([1, 1] ! i)) \<and>
         (\<forall>s. map_of (heap w2 ([1, 1] ! i)) ''id'' = Some (AString s) \<longrightarrow>
              docIDs ! i = ''idx'' @ '':'' @ s)"
    by blast
  from r2 ev2 ev3 have d2: "docIDs = [''idx:uuid-0'', ''idx:uuid-0'']"
    and h2: "heap w2 1 = [(''id'', AString ''uuid-0'')]"
    by simp_all
  have c0: "commands ! 0 = [''HMSET'', ''idx:uuid-0'']"
    using c2 [rule_format, of 0]
    by (simp add: d2 example_world_def example_docs_def field_args_def)
  have c1: "commands ! 1 = [''HMSET'', ''idx:uuid-0'', ''id'', ''uuid-0'']"
    using c2 [rule_format, of 1] h2
    by (simp add: d2 field_args_def serialize_def)
  have "InsertManyWithHash example_lib example_exec (example_world example_docs) ''idx''
          (map Some [1, 1])
        = (Returns ([''idx:uuid-0'', ''idx:uuid-0''], err2), w2) \<and>
      sent w2 = [Pipeline commands] \<and>
      length commands = 2 \<and>
      commands ! 0 = [''HMSET'', ''idx:uuid-0''] \<and>
      commands ! 1 = [''HMSET'', ''idx:uuid-0'', ''id'', ''uuid-0'']"
    using r2 s2 l2 c0 c1 by (simp add: d2 example_world_def)
  then have D: "\<exists>err w' commands.
      InsertManyWithHash example_lib example_exec (example_world example_docs) ''idx''
          (map Some [1, 1])
        = (Returns ([''idx:uuid-0'', ''idx:uuid-0''], err), w') \<and>
      sent w' = [Pipeline commands] \<and>
      length commands = 2 \<and>
      commands ! 0 = [''HMSET'', ''idx:uuid-0''] \<and>
      commands ! 1 = [''HMSET'', ''idx:uuid-0'', ''id'', ''uuid-0'']"
    by (intro exI)
  from ev1 A h B C D show ?thesis by (intro conjI)
qed

text \<open>
  C9 as stated fails for a nil map: it holds no \<open>id\<close>, and the assignment of the
  generated identifier panics instead of adding an \<open>id\<close> key; a batch with a nil map
  panics before anything is sent.
\<close>

theorem insertion_nil_map_counterexample:
  "map_of (entries (example_world example_docs) None) ''id'' = None \<and>
   fst (toHmsetCommand example_lib (example_world example_docs) ''idx'' None)
     = Panics ''assignment to entry in nil map'' \<and>
   fst (InsertWithHash example_lib example_exec (example_world example_docs) ''idx'' None)
     = Panics ''assignment to entry in nil map'' \<and>
   fst (InsertManyWithHash example_lib example_exec (example_world example_docs) ''idx'' [None])
     = Panics ''assignment to entry in nil map'' \<and>
   sent (snd (InsertManyWithHash example_lib example_exec (example_world example_docs) ''idx''
                [None])) = []"
  by (simp add: toHmsetCommand_None InsertWithHash_None InsertManyWithHash_nil entries_def
      example_world_def)

text \<open>
  C9, amended. For an allocated (non-nil) document, \<open>toHmsetCommand\<close>, and with it
  \<open>InsertWithHash\<close> and \<open>InsertManyWithHash\<close>, returns and changes the document of the
  caller in place, and no other document: a document that has an \<open>id\<close> is left as it is;
  one that has none gets the entry \<open>id\<close>, holding the value of \<open>keys\<close> when there is
  one and a freshly generated identifier when there is none. Every generated identifier
  is the next one of the generator, which advances by one: in a batch the documents that
  get a generated identifier get the identifiers drawn during the call, each of them a
  different one.
\<close>

theorem insertion_assigns_id:
  "(\<exists>c. fst (toHmsetCommand L w prefix (Some a)) = Returns c) \<and>
   heap (snd (toHmsetCommand L w prefix (Some a))) =
     (heap w)(a := assign_id L (drawn w) (heap w a)) \<and>
   drawn (snd (toHmsetCommand L w prefix (Some a))) =
     drawn w + (if needs_uuid (heap w a) then 1 else 0) \<and>
   (\<exists>r. fst (InsertWithHash L exec w index (Some a)) = Returns r) \<and>
   heap (snd (InsertWithHash L exec w index (Some a))) =
     (heap w)(a := assign_id L (drawn w) (heap w a)) \<and>
   drawn (snd (InsertWithHash L exec w index (Some a))) =
     drawn w + (if needs_uuid (heap w a) then 1 else 0) \<and>
   (\<exists>r. fst (InsertManyWithHash L exec w index (map Some as)) = Returns r) \<and>
   (\<forall>b. b \<notin> set as \<longrightarrow>
      heap (snd (InsertManyWithHash L exec w index (map Some as))) b = heap w b) \<and>
   (\<forall>b v. b \<in> set as \<and> map_of (heap w b) ''id'' = Some v \<longrightarrow>
      heap (snd (InsertManyWithHash L exec w index (map Some as))) b = heap w b) \<and>
   (\<forall>b k. b \<in> set as \<and> map_of (heap w b) ''id'' = None \<and> map_of (heap w b) ''keys'' = Some k \<longrightarrow>
      heap (snd (InsertManyWithHash L exec w index (map Some as))) b = heap w b @ [(''id'', k)]) \<and>
   (\<exists>f. inj_on f {b \<in> set as. needs_uuid (heap w b)} \<and>
        f ` {b \<in> set as. needs_uuid (heap w b)} =
          {drawn w ..< drawn (snd (InsertManyWithHash L exec w index (map Some as)))} \<and>
        (\<forall>b. b \<in> set as \<and> needs_uuid (heap w b) \<longrightarrow>
           heap (snd (InsertManyWithHash L exec w index (map Some as))) b =
             heap w b @ [(''id'', AString (uuid_String L (f b)))])) \<and>
   drawn (snd (InsertManyWithHash L exec w index (map Some as))) =
     drawn w + card {b \<in> set as. needs_uuid (heap w b)} \<and>
   (needs_uuid d \<longleftrightarrow> map_of d ''id'' = None \<and> map_of d ''keys'' = None) \<and>
   (\<forall>v. map_of d ''id'' = Some v \<longrightarrow> assign_id L n d = d) \<and>
   (\<forall>k. map_of d ''id'' = None \<and> map_of d ''keys'' = Some k \<longrightarrow>
      assign_id L n d = d @ [(''id'', k)]) \<and>
   (needs_uuid d \<longrightarrow> assign_id L n d = d @ [(''id'', AString (uuid_String L n))])"
proof -
  note hw = InsertManyWithHash_heap [of L exec w index as]
  have t1: "\<exists>c. fst (toHmsetCommand L w prefix (Some a)) = Returns c"
    by (simp add: toHmsetCommand_Some)
  have t2: "heap (snd (toHmsetCommand L w prefix (Some a))) =
     (heap w)(a := assign_id L (drawn w) (heap w a))"
    and t3: "drawn (snd (toHmsetCommand L w prefix (Some a))) =
     drawn w + (if needs_uuid (heap w a) then 1 else 0)"
    using toHmsetCommand_Some_world [of L w prefix a] by simp_all
  have i1: "\<exists>r. fst (InsertWithHash L exec w index (Some a)) = Returns r"
    by (simp add: InsertWithHash_Some Let_def)
  have i2: "heap (snd (InsertWithHash L exec w index (Some a))) =
     (heap w)(a := assign_id L (drawn w) (heap w a))"
    and i3: "drawn (snd (InsertWithHash L exec w index (Some a))) =
     drawn w + (if needs_uuid (heap w a) then 1 else 0)"
    using toHmsetCommand_Some_world [of L w index a]
    by (simp_all add: InsertWithHash_Some Let_def)
  have m1: "\<exists>r. fst (InsertManyWithHash L exec w index (map Some as)) = Returns r"
    by (simp add: InsertManyWithHash_unfold Let_def)
  have m2: "\<forall>b. b \<notin> set as \<longrightarrow>
      heap (snd (InsertManyWithHash L exec w index (map Some as))) b = heap w b"
    by (simp add: hw hmset_commands_heap_other)
  have m3: "\<forall>b v. b \<in> set as \<and> map_of (heap w b) ''id'' = Some v \<longrightarrow>
      heap (snd (InsertManyWithHash L exec w index (map Some as))) b = heap w b"
    by (simp add: hw hmset_commands_has_id)
  have m4: "\<forall>b k. b \<in> set as \<and> map_of (heap w b) ''id'' = None \<and>
        map_of (heap w b) ''keys'' = Some k \<longrightarrow>
      heap (snd (InsertManyWithHash L exec w index (map Some as))) b = heap w b @ [(''id'', k)]"
    by (simp add: hw hmset_commands_keys)
  have m5: "\<exists>f. inj_on f {b \<in> set as. needs_uuid (heap w b)} \<and>
        f ` {b \<in> set as. needs_uuid (heap w b)} =
          {drawn w ..< drawn (snd (InsertManyWithHash L exec w index (map Some as)))} \<and>
        (\<forall>b. b \<in> set as \<and> needs_uuid (heap w b) \<longrightarrow>
           heap (snd (InsertManyWithHash L exec w index (map Some as))) b =
             heap w b @ [(''id'', AString (uuid_String L (f b)))])"
    using hmset_commands_generated [of as w L index] by (simp add: hw)
  have m6: "drawn (snd (InsertManyWithHash L exec w index (map Some as))) =
     drawn w + card {b \<in> set as. needs_uuid (heap w b)}"
    by (simp add: hw hmset_commands_drawn)
  have d1: "needs_uuid d \<longleftrightarrow> map_of d ''id'' = None \<and> map_of d ''keys'' = None"
    by (simp add: needs_uuid_def)
  have d2: "\<forall>v. map_of d ''id'' = Some v \<longrightarrow> assign_id L n d = d"
    and d3: "\<forall>k. map_of d ''id'' = None \<and> map_of d ''keys'' = Some k \<longrightarrow>
      assign_id L n d = d @ [(''id'', k)]"
    and d4: "needs_uuid d \<longrightarrow> assign_id L n d = d @ [(''id'', AString (uuid_String L n))]"
    by (simp_all add: assign_id_def needs_uuid_def)
  show ?thesis
    by (intro conjI) (rule t1 t2 t3 i1 i2 i3 m1 m2 m3 m4 m5 m6 d1 d2 d3 d4)+
qed

theorem insertion_assigns_id_witness:
  "heap (snd (toHmsetCommand example_lib (example_world example_docs) ''idx'' (Some 1))) 1
     = [(''id'', AString ''uuid-0'')] \<and>
   drawn (snd (toHmsetCommand example_lib (example_world example_docs) ''idx'' (Some 1))) = 1 \<and>
   heap (snd (InsertWithHash example_lib example_exec (example_world example_docs) ''idx'' (Some 0))) 0
     = [(''id'', AString ''42'')] \<and>
   drawn (snd (InsertWithHash example_lib example_exec (example_world example_docs) ''idx''
                 (Some 0))) = 0 \<and>
   (0 :: nat) \<notin> set [1, 2, 1] \<and>
   heap (snd (InsertManyWithHash example_lib example_exec (example_world example_docs) ''idx''
                (map Some [1, 2, 1]))) 0
     = [(''id'', AString ''42'')] \<and>
   (2 :: nat) \<in> set [1, 2, 1] \<and>
   map_of (heap (example_world example_docs) 2) ''id'' = None \<and>
   map_of (heap (example_world example_docs) 2) ''keys'' = Some (AString ''k'') \<and>
   heap (snd (InsertManyWithHash example_lib example_exec (example_world example_docs) ''idx''
                (map Some [1, 2, 1]))) 2
     = heap (example_world example_docs) 2 @ [(''id'', AString ''k'')] \<and>
   drawn (snd (InsertManyWithHash example_lib example_exec (example_world example_docs) ''idx''
                 (map Some [1, 2, 1]))) = 1 \<and>
   needs_uuid (example_docs ! 1) \<and>
   assign_id example_lib 0 (example_docs ! 1) = [(''id'', AString ''uuid-0'')]"
proof -
  note t1 = insertion_assigns_id [of example_lib "example_world example_docs" "''idx''" 1
      example_exec "''idx''" "[1, 2, 1]" "example_docs ! 1" 0]
  note t0 = insertion_assigns_id [of example_lib "example_world example_docs" "''idx''" 0
      example_exec "''idx''" "[1, 2, 1]" "example_docs ! 1" 0]
  have n: "needs_uuid (example_docs ! 1)" "\<not> needs_uuid (example_docs ! 0)"
    "\<not> needs_uuid (example_docs ! 2)"
    by (simp_all add: needs_uuid_def example_docs_def)
  have a: "assign_id example_lib 0 (example_docs ! 1) = [(''id'', AString ''uuid-0'')]"
    using t1 n by (simp add: example_docs_def example_lib_def digits.simps)
  have h: "heap (example_world example_docs) 1 = example_docs ! 1"
          "heap (example_world example_docs) 0 = example_docs ! 0"
          "heap (example_world example_docs) 2 = example_docs ! 2"
          "drawn (example_world example_docs) = 0"
    by (simp_all add: example_world_def example_docs_def)
  have a0: "assign_id example_lib 0 (example_docs ! 0) = [(''id'', AString ''42'')]"
    by (simp add: assign_id_def example_docs_def)
  have c1: "heap (snd (toHmsetCommand example_lib (example_world example_docs) ''idx'' (Some 1))) 1
     = [(''id'', AString ''uuid-0'')]"
    using t1 [THEN conjunct2, THEN conjunct1] h n a by simp
  have c2: "drawn (snd (toHmsetCommand example_lib (example_world example_docs) ''idx'' (Some 1)))
     = 1"
    using t1 [THEN conjunct2, THEN conjunct2, THEN conjunct1] h n by simp
  have c3: "heap (snd (InsertWithHash example_lib example_exec (example_world example_docs) ''idx''
                         (Some 0))) 0 = [(''id'', AString ''42'')]"
    using t0 [THEN conjunct2, THEN conjunct2, THEN conjunct2, THEN conjunct2, THEN conjunct1]
      h n a0 by simp
  have c4: "drawn (snd (InsertWithHash example_lib example_exec (example_world example_docs)
                           ''idx'' (Some 0))) = 0"
    using t0 [THEN conjunct2, THEN conjunct2, THEN conjunct2, THEN conjunct2, THEN conjunct2,
              THEN conjunct1] h n by simp
  have c5: "heap (snd (InsertManyWithHash example_lib example_exec (example_world example_docs)
                         ''idx'' (map Some [1, 2, 1]))) 0 = [(''id'', AString ''42'')]"
    using t1 [THEN conjunct2, THEN conjunct2, THEN conjunct2, THEN conjunct2, THEN conjunct2,
              THEN conjunct2, THEN conjunct2, THEN conjunct1, rule_format, of 0]
      h
    by (simp add: example_docs_def)
  have k: "map_of (heap (example_world example_docs) 2) ''id'' = None"
          "map_of (heap (example_world example_docs) 2) ''keys'' = Some (AString ''k'')"
    by (simp_all add: example_world_def example_docs_def)
  have c6: "heap (snd (InsertManyWithHash example_lib example_exec (example_world example_docs)
                         ''idx'' (map Some [1, 2, 1]))) 2
     = heap (example_world example_docs) 2 @ [(''id'', AString ''k'')]"
    using t1 [THEN conjunct2, THEN conjunct2, THEN conjunct2, THEN conjunct2, THEN conjunct2,
              THEN conjunct2, THEN conjunct2, THEN conjunct2, THEN conjunct2, THEN conjunct1,
              rule_format, of 2 "AString ''k''"] k
    by simp
  have F: "{b \<in> set [1, 2, 1 :: nat]. needs_uuid (heap (example_world example_docs) b)} = {1}"
    using n h by auto
  have c7: "drawn (snd (InsertManyWithHash example_lib example_exec (example_world example_docs)
                          ''idx'' (map Some [1, 2, 1]))) = 1"
    using t1 [THEN conjunct2, THEN conjunct2, THEN conjunct2, THEN conjunct2, THEN conjunct2,
              THEN conjunct2, THEN conjunct2, THEN conjunct2, THEN conjunct2, THEN conjunct2,
              THEN conjunct2, THEN conjunct1]
    unfolding F using h by simp
  have s: "(0 :: nat) \<notin> set [1, 2, 1]" "(2 :: nat) \<in> set [1, 2, 1]" by simp_all
  from c1 c2 c3 c4 s c5 k c6 c7 n(1) a show ?thesis by (intro conjI)
qed

section \<open>Properties of the conversion of search results\<close>

lemma fields_range_map_of:
  assumes "distinct (map fst fs)" and "map_of fs ''score'' = None"
  shows "map_of (fields_range L fs acc) k =
     (if k = ''score''
      then (case map_of fs ''distance'' of
              Some f \<Rightarrow> Some (AFloat32 (fst (ParseFloat32 L f)))
            | None \<Rightarrow> map_of acc ''score'')
      else if k = ''distance'' then map_of acc ''distance''
      else (case map_of fs k of Some f \<Rightarrow> Some (AString f) | None \<Rightarrow> map_of acc k))"
  using assms
proof (induction fs arbitrary: acc)
  case Nil
  then show ?case by simp
next
  case (Cons a fs)
  obtain k' f' where a: "a = (k', f')" by (cases a)
  have d: "distinct (map fst fs)" and s: "map_of fs ''score'' = None"
    and k': "map_of fs k' = None" and ks: "k' \<noteq> ''score''"
    using Cons.prems by (auto simp: a map_of_eq_None_iff split: if_splits)
  note IH = Cons.IH [OF d s]
  show ?case
  proof (cases "k' = ''distance''")
    case True
    then show ?thesis using k' by (simp add: a IH update_conv' split: option.splits)
  next
    case False
    then show ?thesis using k' ks by (simp add: a IH update_conv' split: option.splits)
  qed
qed

lemma convert_row_map_of:
  assumes "distinct (map fst (Doc d))" and "map_of (Doc d) ''score'' = None"
  shows "map_of (convert_row L d) k =
     (if k = ''score''
      then map_option (\<lambda>f. AFloat32 (fst (ParseFloat32 L f))) (map_of (Doc d) ''distance'')
      else if k = ''distance'' then None
      else if k = ''id''
      then Some (AString (case map_of (Doc d) ''id'' of Some v \<Rightarrow> v | None \<Rightarrow> Key d))
      else map_option AString (map_of (Doc d) k))"
  by (auto simp: convert_row_def Let_def fields_range_map_of [OF assms] update_conv'
      split: option.splits)

lemma rows_range_map: "rows_range L ds result = result @ map (convert_row L) ds"
  by (induction ds arbitrary: result) simp_all

lemma convertFTSearchResIntoMapSchema_map:
  "convertFTSearchResIntoMapSchema L docs = map (convert_row L) docs"
  by (simp add: convertFTSearchResIntoMapSchema_def rows_range_map)

lemmas search_eval =
  convertFTSearchResIntoMapSchema_def convert_row_def Let_def example_lib_def
  example_ParseFloat32_def example_table_def

text \<open>
  C5 as stated fails for a row that has a field \<open>score\<close> beside the field \<open>distance\<close>:
  both are written to the entry \<open>score\<close> of the result, and the one visited last wins.
  When \<open>score\<close> is visited last, the distance is not in the result; when \<open>distance\<close> is
  visited last, the field \<open>score\<close> is not passed through.
\<close>

theorem convertFTSearchResIntoMapSchema_score_counterexample:
  "map_of (convertFTSearchResIntoMapSchema example_lib
             [\<lparr>Key = ''idx:1'', Doc = [(''distance'', ''0.12''), (''score'', ''x'')], Score = 0\<rparr>] ! 0)
     ''score'' = Some (AString ''x'') \<and>
   map_of (convertFTSearchResIntoMapSchema example_lib
             [\<lparr>Key = ''idx:1'', Doc = [(''score'', ''x''), (''distance'', ''0.12'')], Score = 0\<rparr>] ! 0)
     ''score'' = Some (AFloat32 0x3DF5C28F)"
  by (simp add: search_eval)

text \<open>
  C5, amended. For every row of the reply that has no field named \<open>score\<close>, the document
  of the result has: under \<open>score\<close> the value of the field \<open>distance\<close> (when there is
  one) as the floating-point number that \<open>ParseFloat\<close> returned for it; no entry
  \<open>distance\<close>; every other field under its own name with its own value, as a string;
  and under \<open>id\<close> the field \<open>id\<close> of the row when it has one and the native key of the
  row when it has none. The result has one document per row.
\<close>

theorem convertFTSearchResIntoMapSchema_row:
  assumes "i < length docs"
    and "distinct (map fst (Doc (docs ! i)))"
    and "map_of (Doc (docs ! i)) ''score'' = None"
  shows "length (convertFTSearchResIntoMapSchema L docs) = length docs \<and>
    map_of (convertFTSearchResIntoMapSchema L docs ! i) ''score'' =
      map_option (\<lambda>f. AFloat32 (fst (ParseFloat32 L f))) (map_of (Doc (docs ! i)) ''distance'') \<and>
    map_of (convertFTSearchResIntoMapSchema L docs ! i) ''distance'' = None \<and>
    (\<forall>k. k \<noteq> ''score'' \<and> k \<noteq> ''distance'' \<and> k \<noteq> ''id'' \<longrightarrow>
       map_of (convertFTSearchResIntoMapSchema L docs ! i) k =
         map_option AString (map_of (Doc (docs ! i)) k)) \<and>
    map_of (convertFTSearchResIntoMapSchema L docs ! i) ''id'' =
      Some (AString (case map_of (Doc (docs ! i)) ''id'' of
                       Some v \<Rightarrow> v | None \<Rightarrow> Key (docs ! i)))"
  using assms(1)
  by (simp add: convertFTSearchResIntoMapSchema_map convert_row_map_of [OF assms(2,3)])

text \<open>The row with the distance \<open>0.12\<close> and no \<open>id\<close>; \<open>0x3DF5C28F\<close> is the \<open>float32\<close> nearest to \<open>0.12\<close>.\<close>

theorem convertFTSearchResIntoMapSchema_row_witness:
  "(0 :: nat) < length example_rows \<and>
   distinct (map fst (Doc (example_rows ! 0))) \<and>
   map_of (Doc (example_rows ! 0)) ''score'' = None \<and>
   length (convertFTSearchResIntoMapSchema example_lib example_rows) = length example_rows \<and>
   map_of (convertFTSearchResIntoMapSchema example_lib example_rows ! 0) ''score''
     = Some (AFloat32 0x3DF5C28F) \<and>
   map_of (convertFTSearchResIntoMapSchema example_lib example_rows ! 0) ''distance'' = None \<and>
   map_of (convertFTSearchResIntoMapSchema example_lib example_rows ! 0) ''title''
     = Some (AString ''a'') \<and>
   map_of (convertFTSearchResIntoMapSchema example_lib example_rows ! 0) ''id''
     = Some (AString ''idx:7'')"
proof -
  have h: "(0 :: nat) < length example_rows"
          "distinct (map fst (Doc (example_rows ! 0)))"
          "map_of (Doc (example_rows ! 0)) ''score'' = None"
    by (simp_all add: example_rows_def)
  note t = convertFTSearchResIntoMapSchema_row [OF h, of example_lib]
  have title: "map_of (convertFTSearchResIntoMapSchema example_lib example_rows ! 0) ''title'' =
         map_option AString (map_of (Doc (example_rows ! 0)) ''title'')"
    using t by simp
  show ?thesis
    using h t title
    by (simp add: example_rows_def example_lib_def example_ParseFloat32_def example_table_def)
qed

text \<open>
  C10 as stated fails for a distance on which \<open>ParseFloat\<close> fails with a range error:
  for \<open>1e40\<close> it returns the infinity together with the error, the error is discarded,
  and the score is the infinity, not \<open>0.0\<close>.
\<close>

theorem conversion_range_error_counterexample:
  "map_of (Doc (example_rows ! 2)) ''distance'' = Some ''1e40'' \<and>
   ParseFloat32 example_lib ''1e40'' =
     (0x7F800000, Some (Err ''strconv.ParseFloat: value out of range'')) \<and>
   map_of (convertFTSearchResIntoMapSchema example_lib example_rows ! 2) ''score''
     = Some (AFloat32 0x7F800000) \<and>
   AFloat32 0x7F800000 \<noteq> AFloat32 0"
  by (simp add: search_eval example_rows_def)

text \<open>
  C10, amended. The conversion has no error result and yields one document per row,
  whatever the rows hold, and \<open>Find\<close> returns the converted rows whenever the store
  answered with a search reply. For every row that has no field named \<open>score\<close>, an error
  of \<open>ParseFloat\<close> on the field \<open>distance\<close> is discarded, and the score is the number
  that \<open>ParseFloat\<close> returned together with the error.
\<close>

theorem conversion_keeps_parsed_value:
  "length (convertFTSearchResIntoMapSchema L docs) = length docs \<and>
   (\<forall>tot s. exec (server w) (Build (ToCommand query)) = (Message (SearchReply tot docs), s) \<longrightarrow>
      fst (Find L exec ToCommand w query) = Inr (tot, convertFTSearchResIntoMapSchema L docs)) \<and>
   (\<forall>i field x e.
      i < length docs \<and> distinct (map fst (Doc (docs ! i))) \<and>
      map_of (Doc (docs ! i)) ''score'' = None \<and>
      map_of (Doc (docs ! i)) ''distance'' = Some field \<and>
      ParseFloat32 L field = (x, Some e) \<longrightarrow>
      map_of (convertFTSearchResIntoMapSchema L docs ! i) ''score'' = Some (AFloat32 x))"
  by (auto simp: convertFTSearchResIntoMapSchema_map convert_row_map_of Find_def Do_def Let_def)

text \<open>The row whose distance is \<open>abc\<close>, and a store that answers with the three rows.\<close>

theorem conversion_keeps_parsed_value_witness:
  "(1 :: nat) < length example_rows \<and>
   distinct (map fst (Doc (example_rows ! 1))) \<and>
   map_of (Doc (example_rows ! 1)) ''score'' = None \<and>
   map_of (Doc (example_rows ! 1)) ''distance'' = Some ''abc'' \<and>
   ParseFloat32 example_lib ''abc'' = (0, Some (Err ''strconv.ParseFloat: invalid syntax'')) \<and>
   map_of (convertFTSearchResIntoMapSchema example_lib example_rows ! 1) ''score''
     = Some (AFloat32 0) \<and>
   (\<lambda>s c. (Message (SearchReply 3 example_rows), s)) (server (example_world []))
      (Build \<lparr>Commands = [''FT.SEARCH''], Keys = [''idx''], Args = []\<rparr>)
     = (Message (SearchReply 3 example_rows), []) \<and>
   fst (Find example_lib (\<lambda>s c. (Message (SearchReply 3 example_rows), s))
          (\<lambda>q. \<lparr>Commands = [''FT.SEARCH''], Keys = [q], Args = []\<rparr>) (example_world []) ''idx'')
     = Inr (3, convertFTSearchResIntoMapSchema example_lib example_rows)"
proof -
  have h: "(1 :: nat) < length example_rows \<and>
     distinct (map fst (Doc (example_rows ! 1))) \<and>
     map_of (Doc (example_rows ! 1)) ''score'' = None \<and>
     map_of (Doc (example_rows ! 1)) ''distance'' = Some ''abc'' \<and>
     ParseFloat32 example_lib ''abc'' = (0, Some (Err ''strconv.ParseFloat: invalid syntax''))"
    by (simp add: example_rows_def example_lib_def example_ParseFloat32_def example_table_def)
  have g: "(\<lambda>s c. (Message (SearchReply 3 example_rows), s)) (server (example_world []))
      (Build ((\<lambda>q. \<lparr>Commands = [''FT.SEARCH''], Keys = [q], Args = []\<rparr>) ''idx''))
     = (Message (SearchReply 3 example_rows), [])"
    by (simp add: example_world_def)
  note t = conversion_keeps_parsed_value [of example_lib example_rows
      "\<lambda>s c. (Message (SearchReply 3 example_rows), s)" "example_world []"
      "\<lambda>q. \<lparr>Commands = [''FT.SEARCH''], Keys = [q], Args = []\<rparr>" "''idx''"]
  have a: "map_of (convertFTSearchResIntoMapSchema example_lib example_rows ! 1) ''score''
     = Some (AFloat32 0)"
    using t [THEN conjunct2, THEN conjunct2, rule_format, of 1 "''abc''" 0
               "Err ''strconv.ParseFloat: invalid syntax''"] h
    by blast
  have b: "fst (Find example_lib (\<lambda>s c. (Message (SearchReply 3 example_rows), s))
          (\<lambda>q. \<lparr>Commands = [''FT.SEARCH''], Keys = [q], Args = []\<rparr>) (example_world []) ''idx'')
     = Inr (3, convertFTSearchResIntoMapSchema example_lib example_rows)"
    using t [THEN conjunct2, THEN conjunct1, rule_format, of 3 "[]"] g by blast
  from h a b g show ?thesis by simp
qed

section \<open>Properties of index creation\<close>

lemma CheckIndexExists_eq:
  "index \<noteq> [] \<Longrightarrow>
   CheckIndexExists exec w index =
     (Error (fst (exec (server w) (FtInfo index))) = None,
      w\<lparr>server := snd (exec (server w) (FtInfo index)), sent := sent w @ [Single (FtInfo index)]\<rparr>)"
  by (simp add: CheckIndexExists_def Do_def split_beta Let_def)

lemma CreateIndexIfNotExists_eq:
  assumes "index \<noteq> []"
  shows "CreateIndexIfNotExists exec ToCommand w index schema =
     (let probe = exec (server w) (FtInfo index);
          create = Build (ToCommand \<lparr>Name = index, Schema = schema,
                                      Prefix = [getPrefix index], IndexType = ''HASH''\<rparr>)
      in if Error (fst probe) = None
         then (None, w\<lparr>server := snd probe, sent := sent w @ [Single (FtInfo index)]\<rparr>)
         else (Error (fst (exec (snd probe) create)),
               w\<lparr>server := snd (exec (snd probe) create),
                 sent := sent w @ [Single (FtInfo index), Single create]\<rparr>))"
  using assms
  by (simp add: CreateIndexIfNotExists_def CheckIndexExists_eq Do_def split_beta Let_def)

text \<open>
  C6. For a non-empty index name, \<open>CreateIndexIfNotExists\<close> first sends the existence
  probe; when the probe succeeds it returns nil and has sent nothing but the probe.
  Calling it twice with the same name and schema leaves the store in the state that one
  call leaves it in, for every store in which the probe changes nothing, the probe
  succeeds after a creation that succeeded, and a creation that failed has changed
  nothing.
\<close>

theorem CreateIndexIfNotExists_idempotent:
  assumes "index \<noteq> []"
    and "index_store exec index
           (Build (ToCommand \<lparr>Name = index, Schema = schema,
                               Prefix = [getPrefix index], IndexType = ''HASH''\<rparr>))"
  shows "(\<exists>calls. sent (snd (CreateIndexIfNotExists exec ToCommand w index schema)) =
                    sent w @ Single (FtInfo index) # calls) \<and>
    (Error (fst (exec (server w) (FtInfo index))) = None \<longrightarrow>
       fst (CreateIndexIfNotExists exec ToCommand w index schema) = None \<and>
       sent (snd (CreateIndexIfNotExists exec ToCommand w index schema)) =
         sent w @ [Single (FtInfo index)]) \<and>
    server (snd (CreateIndexIfNotExists exec ToCommand
                   (snd (CreateIndexIfNotExists exec ToCommand w index schema)) index schema)) =
      server (snd (CreateIndexIfNotExists exec ToCommand w index schema))"
proof -
  define create where
    "create = Build (ToCommand \<lparr>Name = index, Schema = schema,
                                 Prefix = [getPrefix index], IndexType = ''HASH''\<rparr>)"
  have P1: "snd (exec s (FtInfo index)) = s" for s
    using assms(2) by (simp add: index_store_def)
  have P2: "Error (fst (exec s create)) = None \<Longrightarrow>
            Error (fst (exec (snd (exec s create)) (FtInfo index))) = None" for s
    using assms(2) by (simp add: index_store_def create_def)
  have P3: "Error (fst (exec s create)) \<noteq> None \<Longrightarrow> snd (exec s create) = s" for s
    using assms(2) unfolding index_store_def create_def by blast
  note eq = CreateIndexIfNotExists_eq [OF assms(1), of exec ToCommand _ schema,
      unfolded Let_def, folded create_def]
  have a: "\<exists>calls. sent (snd (CreateIndexIfNotExists exec ToCommand w index schema)) =
                    sent w @ Single (FtInfo index) # calls"
    by (simp add: eq)
  have b: "Error (fst (exec (server w) (FtInfo index))) = None \<longrightarrow>
       fst (CreateIndexIfNotExists exec ToCommand w index schema) = None \<and>
       sent (snd (CreateIndexIfNotExists exec ToCommand w index schema)) =
         sent w @ [Single (FtInfo index)]"
    by (simp add: eq)
  have c: "server (snd (CreateIndexIfNotExists exec ToCommand
                   (snd (CreateIndexIfNotExists exec ToCommand w index schema)) index schema)) =
      server (snd (CreateIndexIfNotExists exec ToCommand w index schema))"
  proof (cases "Error (fst (exec (server w) (FtInfo index))) = None")
    case True
    then show ?thesis by (simp add: eq P1)
  next
    case probe: False
    show ?thesis
    proof (cases "Error (fst (exec (server w) create)) = None")
      case True
      from P2 [OF True] show ?thesis using probe True by (simp add: eq P1)
    next
      case False
      from P3 [OF False] show ?thesis using probe False by (simp add: eq P1)
    qed
  qed
  from a b c show ?thesis by blast
qed

text \<open>The example store satisfies the three conditions, for every index name.\<close>

lemma example_index_store: "index_store example_exec index (''FT.CREATE'' # index # args)"
  by (auto simp: index_store_def example_exec_def FtInfo_def)

text \<open>
  Two calls for the index \<open>idx\<close> on the empty store: the first one probes and creates,
  the second one only probes.
\<close>

theorem CreateIndexIfNotExists_idempotent_witness:
  "''idx'' \<noteq> [] \<and>
   index_store example_exec ''idx''
     (Build (example_ToCommand \<lparr>Name = ''idx'', Schema = (),
                                 Prefix = [getPrefix ''idx''], IndexType = ''HASH''\<rparr>)) \<and>
   server (snd (CreateIndexIfNotExists example_exec example_ToCommand (example_world []) ''idx'' ()))
     = [''idx''] \<and>
   server (snd (CreateIndexIfNotExists example_exec example_ToCommand
                  (snd (CreateIndexIfNotExists example_exec example_ToCommand (example_world [])
                          ''idx'' ()))
                  ''idx'' ()))
     = server (snd (CreateIndexIfNotExists example_exec example_ToCommand (example_world [])
                      ''idx'' ())) \<and>
   sent (snd (CreateIndexIfNotExists example_exec example_ToCommand
                (snd (CreateIndexIfNotExists example_exec example_ToCommand (example_world [])
                        ''idx'' ()))
                ''idx'' ()))
     = [Single [''FT.INFO'', ''idx''],
        Single [''FT.CREATE'', ''idx'', ''ON'', ''HASH'', ''PREFIX'', ''1'', ''idx:''],
        Single [''FT.INFO'', ''idx'']]"
proof -
  have n: "''idx'' \<noteq> []" by simp
  have s: "index_store example_exec ''idx''
     (Build (example_ToCommand \<lparr>Name = ''idx'', Schema = (),
                                 Prefix = [getPrefix ''idx''], IndexType = ''HASH''\<rparr>))"
    by (simp add: Build_def example_ToCommand_def example_index_store)
  have first: "CreateIndexIfNotExists example_exec example_ToCommand (example_world []) ''idx'' ()
     = (None, \<lparr>server = [''idx''],
               sent = [Single [''FT.INFO'', ''idx''],
                       Single [''FT.CREATE'', ''idx'', ''ON'', ''HASH'', ''PREFIX'', ''1'', ''idx:'']],
               heap = (\<lambda>r. []), drawn = 0\<rparr>)"
    by (simp add: CreateIndexIfNotExists_eq Let_def example_exec_def example_ToCommand_def
        example_world_def Build_def FtInfo_def getPrefix_def)
  note t = CreateIndexIfNotExists_idempotent [where exec = example_exec
      and ToCommand = example_ToCommand and index = "''idx''" and schema = "()"
      and w = "example_world []", OF n s]
  note u = CreateIndexIfNotExists_idempotent [where exec = example_exec
      and ToCommand = example_ToCommand and index = "''idx''" and schema = "()"
      and w = "snd (CreateIndexIfNotExists example_exec example_ToCommand (example_world [])
                      ''idx'' ())", OF n s]
  have probe: "Error (fst (example_exec [''idx''] (FtInfo ''idx''))) = None"
    by (simp add: example_exec_def FtInfo_def)
  have second: "sent (snd (CreateIndexIfNotExists example_exec example_ToCommand
                (snd (CreateIndexIfNotExists example_exec example_ToCommand (example_world [])
                        ''idx'' ()))
                ''idx'' ()))
     = [Single [''FT.INFO'', ''idx''],
        Single [''FT.CREATE'', ''idx'', ''ON'', ''HASH'', ''PREFIX'', ''1'', ''idx:''],
        Single [''FT.INFO'', ''idx'']]"
    using u [THEN conjunct2, THEN conjunct1] probe by (simp add: first FtInfo_def)
  from n s t second show ?thesis by (simp add: first)
qed

end
